theory Spec2Isabelle
  imports Main
begin

chapter \<open>ObsidianTools: vault scanning, metadata extraction and bulk mutation\<close>

text \<open>
  A shallow embedding of the parts of the tool that its specification makes claims about:
  \<^item> \<open>src/utils/file-utils.js\<close>: \<open>sanitizeFilename\<close>, \<open>analyzeMarkdownFile\<close>;
  \<^item> \<open>src/utils/markdown-utils.js\<close>: \<open>parseYamlLike\<close>, \<open>parseYamlValue\<close>, \<open>stringifyYaml\<close>,
    \<open>stringifyYamlValue\<close>, \<open>stringifyMarkdown\<close>, \<open>manualParse\<close>, \<open>parseMarkdown\<close>;
  \<^item> \<open>src/core/property-manager.js\<close>: \<open>findStandardProperty\<close>, \<open>arePropertiesSimilar\<close>,
    \<open>standardizePropertyNames\<close>, \<open>addMissingProperties\<close>;
  \<^item> \<open>src/core/file-processor.js\<close>: \<open>updateFile\<close>, \<open>updateFileFrontmatter\<close>, \<open>moveFile\<close>;
  \<^item> \<open>src/tools/file-organizer.js\<close>: \<open>executeMoveOperations\<close>;
  \<^item> \<open>src/core/vault-manager.js\<close>: \<open>analyzeDirectory\<close>, the constructor, \<open>loadVaultHistory\<close>,
    \<open>addToHistory\<close>.
\<close>

section \<open>Strings\<close>

text \<open>
  A JavaScript string is a sequence of UTF-16 code units; a code unit is modelled as a natural
  number and a string as a list of them. \<open>js\<close> turns an ASCII literal into such a string.
\<close>

type_synonym jschar = nat
type_synonym jsstring = "jschar list"

definition js :: "string \<Rightarrow> jsstring" where
  "js s = map of_char s"

abbreviation (input) LF :: jschar where "LF \<equiv> 10"
abbreviation (input) CR :: jschar where "CR \<equiv> 13"
abbreviation (input) dquote :: jschar where "dquote \<equiv> 34"
abbreviation (input) squote :: jschar where "squote \<equiv> 39"
abbreviation (input) hash :: jschar where "hash \<equiv> 35"
abbreviation (input) comma :: jschar where "comma \<equiv> 44"
abbreviation (input) hyphen :: jschar where "hyphen \<equiv> 45"
abbreviation (input) colon :: jschar where "colon \<equiv> 58"
abbreviation (input) backslash :: jschar where "backslash \<equiv> 92"
abbreviation (input) lbracket :: jschar where "lbracket \<equiv> 91"
abbreviation (input) rbracket :: jschar where "rbracket \<equiv> 93"
abbreviation (input) underscore :: jschar where "underscore \<equiv> 95"

text \<open>
  The class \<open>\s\<close> of a regular expression, which is also what \<open>String.prototype.trim\<close> strips:
  TAB, LF, VT, FF, CR, SP, NBSP, U+1680, U+2000..U+200A, U+2028, U+2029, U+202F, U+205F, U+3000
  and U+FEFF.
\<close>

definition isWhiteSpace :: "jschar \<Rightarrow> bool" where
  "isWhiteSpace c \<longleftrightarrow>
     c \<in> {9, 10, 11, 12, 13, 32, 160, 5760, 8232, 8233, 8239, 8287, 12288, 65279}
     \<or> (8192 \<le> c \<and> c \<le> 8202)"

text \<open>The characters that \<open>.\<close> does not match: LF, CR, U+2028, U+2029.\<close>

definition isLineTerminator :: "jschar \<Rightarrow> bool" where
  "isLineTerminator c \<longleftrightarrow> c \<in> {10, 13, 8232, 8233}"

definition trim :: "jsstring \<Rightarrow> jsstring" where
  "trim s = rev (dropWhile isWhiteSpace (rev (dropWhile isWhiteSpace s)))"

text \<open>
  \<open>toLowerCase\<close> on the ASCII letters. The Unicode case mappings of other letters are not
  modelled: a code unit outside \<open>A..Z\<close> is kept.
\<close>

definition toLowerCase :: "jsstring \<Rightarrow> jsstring" where
  "toLowerCase s = map (\<lambda>c. if 65 \<le> c \<and> c \<le> 90 then c + 32 else c) s"

definition startsWith :: "jsstring \<Rightarrow> jsstring \<Rightarrow> bool" where
  "startsWith s p \<longleftrightarrow> take (length p) s = p"

definition endsWith :: "jsstring \<Rightarrow> jsstring \<Rightarrow> bool" where
  "endsWith s p \<longleftrightarrow> length p \<le> length s \<and> drop (length s - length p) s = p"

text \<open>\<open>s.slice(1, -1)\<close>: the string without its first and last code unit.\<close>

definition slice1 :: "jsstring \<Rightarrow> jsstring" where
  "slice1 s = butlast (tl s)"

text \<open>\<open>s.split(sep)\<close> for a separator of one code unit; the result is never empty.\<close>

fun splitOn :: "jschar \<Rightarrow> jsstring \<Rightarrow> jsstring list" where
  "splitOn sep [] = [[]]"
| "splitOn sep (c # cs) =
     (if c = sep then [] # splitOn sep cs
      else (case splitOn sep cs of [] \<Rightarrow> [[c]] | x # xs \<Rightarrow> (c # x) # xs))"

text \<open>\<open>xs.join(sep)\<close>.\<close>

fun joinWith :: "jsstring \<Rightarrow> jsstring list \<Rightarrow> jsstring" where
  "joinWith sep [] = []"
| "joinWith sep [x] = x"
| "joinWith sep (x # y # ys) = x @ sep @ joinWith sep (y # ys)"

text \<open>
  \<open>s.replace(/P+/g, r)\<close> for a character class \<open>P\<close>: every maximal run of characters of the
  class becomes the single character \<open>r\<close>.
\<close>

function replaceRuns :: "(jschar \<Rightarrow> bool) \<Rightarrow> jschar \<Rightarrow> jsstring \<Rightarrow> jsstring" where
  "replaceRuns P r [] = []"
| "replaceRuns P r (c # cs) =
     (if P c then r # replaceRuns P r (dropWhile P cs) else c # replaceRuns P r cs)"
  by pat_completeness auto
termination
  by (relation "measure (\<lambda>(P, r, s). length s)")
     (auto simp: length_dropWhile_le less_Suc_eq_le)

text \<open>
  \<open>s.replace(/^P|P$/g, '')\<close> for a character class \<open>P\<close>: the first alternative removes a
  leading character of the class, the second a trailing one of what is left.
\<close>

definition stripEdges :: "(jschar \<Rightarrow> bool) \<Rightarrow> jsstring \<Rightarrow> jsstring" where
  "stripEdges P s =
     (let t = (case s of [] \<Rightarrow> [] | c # cs \<Rightarrow> if P c then cs else s)
      in if t \<noteq> [] \<and> P (last t) then butlast t else t)"

section \<open>File names (\<open>file-utils.js\<close>)\<close>

text \<open>The class \<open>[<>:"/\\|?*]\<close>.\<close>

definition isReserved :: "jschar \<Rightarrow> bool" where
  "isReserved c \<longleftrightarrow> c \<in> {60, 62, 58, 34, 47, 92, 124, 63, 42}"

text \<open>
  \<^verbatim>\<open>
  sanitizeFilename(filename) {
      return filename
          .replace(/[<>:"/\\|?*]/g, '-')
          .replace(/\s+/g, '-')
          .replace(/-+/g, '-')
          .replace(/^-|-$/g, '');
  }
  \<close>
\<close>

definition sanitizeFilename :: "jsstring \<Rightarrow> jsstring" where
  "sanitizeFilename filename =
     stripEdges (\<lambda>c. c = hyphen)
       (replaceRuns (\<lambda>c. c = hyphen) hyphen
         (replaceRuns isWhiteSpace hyphen
           (map (\<lambda>c. if isReserved c then hyphen else c) filename)))"

text \<open>A run of two or more consecutive hyphens occurs in the string.\<close>

fun hyphenRun :: "jsstring \<Rightarrow> bool" where
  "hyphenRun (a # b # cs) = ((a = hyphen \<and> b = hyphen) \<or> hyphenRun (b # cs))"
| "hyphenRun _ = False"

section \<open>Recent vaults (\<open>vault-manager.js\<close>)\<close>

text \<open>
  The part of a \<open>VaultManager\<close> that \<open>addToHistory\<close> touches.
  \<^verbatim>\<open>
  constructor() {
      ...
      this.recentVaults = [];
      this.loadVaultHistory();
  }

  async loadVaultHistory() {
      try {
          if (await fs.pathExists(this.vaultHistoryFile)) {
              const historyData = await fs.readJson(this.vaultHistoryFile);
              this.recentVaults = historyData.recentVaults || [];
              const validVaults = [];
              for (const vaultPath of this.recentVaults) {
                  if (await fs.pathExists(vaultPath)) {
                      validVaults.push(vaultPath);
                  }
              }
              this.recentVaults = validVaults;
          }
      } catch (error) {
          this.logger.debug('Error loading vault history:', error.message);
          this.recentVaults = [];
      }
  }
  \<close>
  The constructor does not await \<open>loadVaultHistory\<close>: it returns with \<open>recentVaults = []\<close> and
  the load goes on at its \<open>await\<close>s, between the calls made on the new object. What the load
  still has to assign to \<open>recentVaults\<close> is part of the state, as the list \<open>pendingLoad\<close>.

  What the load meets when it looks for the history file:
  \<^item> \<open>NoFile\<close>: \<open>pathExists\<close> is false, and the load assigns nothing;
  \<^item> \<open>Unreadable\<close>: \<open>readJson\<close> throws (or the file holds \<open>null\<close>), and the \<open>catch\<close> assigns \<open>[]\<close>;
  \<^item> \<open>Holds h\<close>: \<open>historyData.recentVaults || []\<close> is the array of strings \<open>h\<close>; the load assigns
    \<open>h\<close> and then, after the \<open>await\<close>s of its loop over \<open>h\<close>, the entries of \<open>h\<close> that exist.
    (\<open>addToHistory\<close> replaces \<open>this.recentVaults\<close> by new arrays and never changes \<open>h\<close>.)

  The predicate \<open>exists\<close> is \<open>fs.pathExists\<close> on the entries of the file.
\<close>

datatype history = NoFile | Unreadable | Holds "jsstring list"

record vaultManager =
  recentVaults :: "jsstring list"
  pendingLoad :: "jsstring list list"

definition loadVaultHistory :: "history \<Rightarrow> (jsstring \<Rightarrow> bool) \<Rightarrow> jsstring list list" where
  "loadVaultHistory found exists =
     (case found of
        NoFile \<Rightarrow> []
      | Unreadable \<Rightarrow> [[]]
      | Holds h \<Rightarrow> [h, filter exists h])"

definition newVaultManager :: "history \<Rightarrow> (jsstring \<Rightarrow> bool) \<Rightarrow> vaultManager" where
  "newVaultManager found exists =
     \<lparr>recentVaults = [], pendingLoad = loadVaultHistory found exists\<rparr>"

text \<open>The load resumes and makes its next assignment.\<close>

definition resumeLoad :: "vaultManager \<Rightarrow> vaultManager" where
  "resumeLoad vm =
     (case pendingLoad vm of
        [] \<Rightarrow> vm
      | v # rest \<Rightarrow> \<lparr>recentVaults = v, pendingLoad = rest\<rparr>)"

text \<open>
  \<^verbatim>\<open>
  async addToHistory(vaultPath) {
      this.recentVaults = this.recentVaults.filter(path => path !== vaultPath);
      this.recentVaults.unshift(vaultPath);
      this.recentVaults = this.recentVaults.slice(0, 10);
      await this.saveVaultHistory();
  }
  \<close>
  The three statements run without an \<open>await\<close> between them. \<open>saveVaultHistory\<close> writes the list
  to disk and swallows every error; it does not touch \<open>recentVaults\<close>.
\<close>

definition addToHistory :: "vaultManager \<Rightarrow> jsstring \<Rightarrow> vaultManager" where
  "addToHistory vm vaultPath =
     vm\<lparr>recentVaults := take 10 (vaultPath # filter (\<lambda>path. path \<noteq> vaultPath) (recentVaults vm))\<rparr>"

text \<open>
  The life of a manager is a sequence of events: a call of \<open>addToHistory\<close>, or the pending load
  resuming for its next assignment.
\<close>

datatype event = Call jsstring | LoadResumes

fun step :: "vaultManager \<Rightarrow> event \<Rightarrow> vaultManager" where
  "step vm (Call vaultPath) = addToHistory vm vaultPath"
| "step vm LoadResumes = resumeLoad vm"

definition run :: "vaultManager \<Rightarrow> event list \<Rightarrow> vaultManager" where
  "run vm events = foldl step vm events"

text \<open>The paths passed to the calls among the events, in order.\<close>

fun calls :: "event list \<Rightarrow> jsstring list" where
  "calls [] = []"
| "calls (Call vaultPath # events) = vaultPath # calls events"
| "calls (LoadResumes # events) = calls events"

section \<open>Frontmatter values and objects\<close>

text \<open>
  A \<open>Date\<close> is either invalid or given by its UTC fields (month and day counted from 1).
\<close>

record utc =
  utcYear :: int
  utcMonth :: nat
  utcDay :: nat
  utcHours :: nat
  utcMinutes :: nat
  utcSeconds :: nat
  utcMillis :: nat

datatype jsdate = InvalidDate | ValidDate utc

text \<open>
  The values a frontmatter entry holds: \<open>null\<close>, a boolean, a number, a string or an array, as
  the parsers of the program produce them, and a \<open>Date\<close> or a nested object, as gray-matter
  produces them for a YAML timestamp (\<open>created: 2024-03-01\<close>) and a nested mapping.
  Numbers are IEEE doubles in the program; the development is parametric in the number type
  \<open>'n\<close> and reaches numbers only through the conversions of the host language, collected in
  the record \<open>host\<close> below.
\<close>

datatype 'n jsvalue =
    JNull
  | JBool bool
  | JNum 'n
  | JStr jsstring
  | JArr "'n jsvalue list"
  | JDate jsdate
  | JObj "(jsstring \<times> 'n jsvalue) list"

text \<open>
  An object is the list of its own enumerable entries in insertion order, with distinct keys.
  (JavaScript lists integer-like keys first and routes an assignment to the key \<open>__proto__\<close> to
  the prototype; neither is modelled, and objects are compared through their entries.)
\<close>

type_synonym 'n jsobject = "(jsstring \<times> 'n jsvalue) list"

text \<open>\<open>obj[key]\<close>: \<open>None\<close> is \<open>undefined\<close>.\<close>

definition getProp :: "'n jsobject \<Rightarrow> jsstring \<Rightarrow> 'n jsvalue option" where
  "getProp obj key = map_of obj key"

text \<open>\<open>obj[key] = v\<close>: an existing entry keeps its place, a new one goes last.\<close>

fun setProp :: "'n jsobject \<Rightarrow> jsstring \<Rightarrow> 'n jsvalue \<Rightarrow> 'n jsobject" where
  "setProp [] key v = [(key, v)]"
| "setProp ((k, w) # rest) key v =
     (if k = key then (k, v) # rest else (k, w) # setProp rest key v)"

text \<open>\<open>{ ...a, ...b }\<close>: the entries of \<open>a\<close>, then those of \<open>b\<close>, assigned in order to a fresh object.\<close>

definition spread :: "'n jsobject \<Rightarrow> 'n jsobject \<Rightarrow> 'n jsobject" where
  "spread a b = foldl (\<lambda>obj (k, v). setProp obj k v) [] (a @ b)"

text \<open>
  The host language and the \<open>gray-matter\<close> package:
  \<^item> \<open>Number\<close> is \<open>Number(s)\<close>, \<open>isNaN\<close> is \<open>isNaN(n)\<close>, \<open>numberToString\<close> is \<open>n.toString()\<close>;
  \<^item> \<open>isZero\<close> holds of \<open>+0\<close> and \<open>-0\<close> (with \<open>NaN\<close>, the numbers that are falsy);
  \<^item> \<open>dateToString\<close> is \<open>String(d)\<close> of a valid \<open>Date\<close>, which is written in the time zone of the
    process (\<open>Fri Mar 01 2024 00:00:00 GMT+0000 (Coordinated Universal Time)\<close>);
  \<^item> \<open>matter\<close> is \<open>matter(content)\<close> of gray-matter, as (data, content, matter); \<open>None\<close> when
    it throws.
\<close>

record 'n host =
  Number :: "jsstring \<Rightarrow> 'n"
  isNaN :: "'n \<Rightarrow> bool"
  isZero :: "'n \<Rightarrow> bool"
  numberToString :: "'n \<Rightarrow> jsstring"
  dateToString :: "utc \<Rightarrow> jsstring"
  matter :: "jsstring \<Rightarrow> ('n jsobject \<times> jsstring \<times> jsstring) option"

text \<open>The truthiness of a value (\<open>if (v)\<close>, \<open>!v\<close>).\<close>

fun truthy :: "'n host \<Rightarrow> 'n jsvalue \<Rightarrow> bool" where
  "truthy H JNull = False"
| "truthy H (JBool b) = b"
| "truthy H (JNum n) = (\<not> isZero H n \<and> \<not> isNaN H n)"
| "truthy H (JStr s) = (s \<noteq> [])"
| "truthy H (JArr xs) = True"
| "truthy H (JDate d) = True"
| "truthy H (JObj entries) = True"

section \<open>The YAML-like parser and serializer (\<open>markdown-utils.js\<close>)\<close>

text \<open>The pattern \<open>/^\d{4}-\d{2}-\d{2}(T\d{2}:\d{2}:\d{2})?/\<close>; the optional group never decides a match.\<close>

definition isDigit :: "jschar \<Rightarrow> bool" where
  "isDigit c \<longleftrightarrow> 48 \<le> c \<and> c \<le> 57"

definition matchesIsoDate :: "jsstring \<Rightarrow> bool" where
  "matchesIsoDate s \<longleftrightarrow>
     10 \<le> length s \<and> list_all isDigit (take 4 s) \<and> s ! 4 = hyphen
     \<and> list_all isDigit (take 2 (drop 5 s)) \<and> s ! 7 = hyphen
     \<and> list_all isDigit (take 2 (drop 8 s))"

lemma splitOn_item_length: "x \<in> set (splitOn sep s) \<Longrightarrow> length x \<le> length s"
proof (induction s arbitrary: x)
  case Nil
  then show ?case by simp
next
  case (Cons c cs)
  then show ?case
    by (cases "splitOn sep cs") (fastforce split: if_splits intro: le_SucI)+
qed

lemma trim_length: "length (trim s) \<le> length s"
proof -
  have "length (trim s) \<le> length (dropWhile isWhiteSpace s)"
    unfolding trim_def using length_dropWhile_le[of isWhiteSpace "rev (dropWhile isWhiteSpace s)"]
    by simp
  also have "\<dots> \<le> length s" by (rule length_dropWhile_le)
  finally show ?thesis .
qed

text \<open>
  \<^verbatim>\<open>
  parseYamlValue(value) {
      if ((value.startsWith('"') && value.endsWith('"')) ||
          (value.startsWith("'") && value.endsWith("'"))) {
          return value.slice(1, -1);
      }
      if (value === 'true') return true;
      if (value === 'false') return false;
      if (value === 'null') return null;
      if (value.startsWith('[') && value.endsWith(']')) {
          const arrayContent = value.slice(1, -1);
          if (!arrayContent.trim()) return [];
          return arrayContent.split(',').map(item => this.parseYamlValue(item.trim()));
      }
      if (!isNaN(Number(value)) && value !== '') {
          return Number(value);
      }
      if (value.match(/^\d{4}-\d{2}-\d{2}(T\d{2}:\d{2}:\d{2})?/)) {
          return value;
      }
      return value;
  }
  \<close>
\<close>

function parseYamlValue :: "'n host \<Rightarrow> jsstring \<Rightarrow> 'n jsvalue" where
  "parseYamlValue H v =
     (if (startsWith v [dquote] \<and> endsWith v [dquote])
         \<or> (startsWith v [squote] \<and> endsWith v [squote])
      then JStr (slice1 v)
      else if v = js ''true'' then JBool True
      else if v = js ''false'' then JBool False
      else if v = js ''null'' then JNull
      else if startsWith v [lbracket] \<and> endsWith v [rbracket] then
        (if trim (slice1 v) = [] then JArr []
         else JArr (map (\<lambda>item. parseYamlValue H (trim item)) (splitOn comma (slice1 v))))
      else if \<not> isNaN H (Number H v) \<and> v \<noteq> [] then JNum (Number H v)
      else if matchesIsoDate v then JStr v
      else JStr v)"
  by pat_completeness auto
termination
proof (relation "measure (\<lambda>(H, v). length v)")
  show "wf (measure (\<lambda>(H :: 'n host, v). length v))" by simp
next
  fix H :: "'n host" and v item :: jsstring
  assume sw: "startsWith v [lbracket] \<and> endsWith v [rbracket]"
    and item: "item \<in> set (splitOn comma (slice1 v))"
  from sw have ne: "v \<noteq> []" by (auto simp: startsWith_def)
  have "length (trim item) \<le> length item" by (rule trim_length)
  also have "\<dots> \<le> length (slice1 v)" using item by (rule splitOn_item_length)
  also have "\<dots> < length v" using ne by (cases v) (auto simp: slice1_def)
  finally show "((H, trim item), (H, v)) \<in> measure (\<lambda>(H, v). length v)" by simp
qed

text \<open>
  \<^verbatim>\<open>
  parseYamlLike(yamlContent) {
      const result = {};
      const lines = yamlContent.split('\n');
      for (const line of lines) {
          const trimmed = line.trim();
          if (!trimmed || trimmed.startsWith('#')) continue;
          const colonIndex = trimmed.indexOf(':');
          if (colonIndex === -1) continue;
          const key = trimmed.substring(0, colonIndex).trim();
          let value = trimmed.substring(colonIndex + 1).trim();
          value = this.parseYamlValue(value);
          result[key] = value;
      }
      return result;
  }
  \<close>
  \<open>parseYamlLine\<close> is the body of the loop.
\<close>

definition parseYamlLine :: "'n host \<Rightarrow> 'n jsobject \<Rightarrow> jsstring \<Rightarrow> 'n jsobject" where
  "parseYamlLine H result line =
     (let trimmed = trim line in
      if trimmed = [] \<or> startsWith trimmed [hash] then result
      else if colon \<notin> set trimmed then result
      else
        (let colonIndex = length (takeWhile (\<lambda>c. c \<noteq> colon) trimmed);
             key = trim (take colonIndex trimmed);
             v = trim (drop (colonIndex + 1) trimmed)
         in setProp result key (parseYamlValue H v)))"

definition parseYamlLike :: "'n host \<Rightarrow> jsstring \<Rightarrow> 'n jsobject" where
  "parseYamlLike H yamlContent = foldl (parseYamlLine H) [] (splitOn LF yamlContent)"

text \<open>
  \<^verbatim>\<open>
  stringifyYamlValue(value) {
      if (value === null) return 'null';
      if (typeof value === 'boolean') return value.toString();
      if (typeof value === 'number') return value.toString();
      if (Array.isArray(value)) {
          if (value.length === 0) return '[]';
          return `[${value.map(item => this.stringifyYamlValue(item)).join(', ')}]`;
      }
      if (typeof value === 'string') {
          if (value.includes(':') || value.includes('#') || value.includes('\n')) {
              return `"${value.replace(/"/g, '\\"')}"`;
          }
          return value;
      }
      return String(value);
  }
  \<close>
  The last line is reached by a \<open>Date\<close> (\<open>String\<close> of an invalid one is \<open>Invalid Date\<close>) and by a
  nested object (\<open>String\<close> of a plain object is \<open>[object Object]\<close>).
\<close>

fun stringifyYamlValue :: "'n host \<Rightarrow> 'n jsvalue \<Rightarrow> jsstring" where
  "stringifyYamlValue H JNull = js ''null''"
| "stringifyYamlValue H (JBool b) = (if b then js ''true'' else js ''false'')"
| "stringifyYamlValue H (JNum n) = numberToString H n"
| "stringifyYamlValue H (JArr xs) =
     (if xs = [] then js ''[]''
      else [lbracket] @ joinWith (js '', '') (map (stringifyYamlValue H) xs) @ [rbracket])"
| "stringifyYamlValue H (JStr s) =
     (if colon \<in> set s \<or> hash \<in> set s \<or> LF \<in> set s
      then [dquote] @ concat (map (\<lambda>c. if c = dquote then [backslash, dquote] else [c]) s) @ [dquote]
      else s)"
| "stringifyYamlValue H (JDate d) =
     (case d of InvalidDate \<Rightarrow> js ''Invalid Date'' | ValidDate u \<Rightarrow> dateToString H u)"
| "stringifyYamlValue H (JObj entries) = js ''[object Object]''"

text \<open>
  \<^verbatim>\<open>
  stringifyYaml(obj, indent = 0) {
      const spaces = '  '.repeat(indent);
      let result = '';
      for (const [key, value] of Object.entries(obj)) {
          result += `${spaces}${key}: ${this.stringifyYamlValue(value)}\n`;
      }
      return result;
  }
  \<close>
\<close>

definition stringifyYaml :: "'n host \<Rightarrow> 'n jsobject \<Rightarrow> nat \<Rightarrow> jsstring" where
  "stringifyYaml H obj indent =
     (let spaces = concat (replicate indent (js ''  ''))
      in foldl (\<lambda>result (key, v). result @ spaces @ key @ js '': '' @ stringifyYamlValue H v @ [LF])
           [] obj)"

text \<open>
  \<^verbatim>\<open>
  stringifyMarkdown({ frontmatter, content }) {
      if (!frontmatter || Object.keys(frontmatter).length === 0) {
          return content;
      }
      const yamlString = this.stringifyYaml(frontmatter);
      return `---\n${yamlString}---\n\n${content}`;
  }
  \<close>
\<close>

definition stringifyMarkdown :: "'n host \<Rightarrow> 'n jsobject \<Rightarrow> jsstring \<Rightarrow> jsstring" where
  "stringifyMarkdown H frontmatter content =
     (if frontmatter = [] then content
      else js ''---'' @ [LF] @ stringifyYaml H frontmatter 0 @ js ''---'' @ [LF, LF] @ content)"

section \<open>The frontmatter block (\<open>markdown-utils.js\<close>, \<open>file-utils.js\<close>)\<close>

text \<open>
  Both \<open>manualParse\<close> and \<open>analyzeMarkdownFile\<close> find the block with
  \<open>/^---\s*\n([\s\S]*?)\n---\s*\n/\<close>. The functions below follow the backtracking matcher.

  \<open>wsNewlineEnds s\<close> lists what is left of \<open>s\<close> after each way of matching the greedy
  \<open>\s*\n\<close> at its start, in the order the matcher tries them: the longest first.
\<close>

definition wsNewlineEnds :: "jsstring \<Rightarrow> jsstring list" where
  "wsNewlineEnds s =
     (let w = takeWhile isWhiteSpace s
      in map (\<lambda>i. drop (Suc i) s) (filter (\<lambda>i. s ! i = LF) (rev [0..<length w])))"

text \<open>\<open>\n---\s*\n\<close> at the start of \<open>s\<close>: what is left after the match.\<close>

definition matchClose :: "jsstring \<Rightarrow> jsstring option" where
  "matchClose s =
     (if startsWith s (LF # js ''---'')
      then (case wsNewlineEnds (drop 4 s) of [] \<Rightarrow> None | r # _ \<Rightarrow> Some r)
      else None)"

text \<open>
  The lazy \<open>([\s\S]*?)\<close> followed by the closing delimiter: the group grows one character at a
  time until the delimiter matches. The result is the group and what is left after the match.
\<close>

fun matchBody :: "jsstring \<Rightarrow> jsstring \<Rightarrow> (jsstring \<times> jsstring) option" where
  "matchBody raw [] = (case matchClose [] of Some r \<Rightarrow> Some (raw, r) | None \<Rightarrow> None)"
| "matchBody raw (c # cs) =
     (case matchClose (c # cs) of Some r \<Rightarrow> Some (raw, r) | None \<Rightarrow> matchBody (raw @ [c]) cs)"

fun firstSome :: "'a option list \<Rightarrow> 'a option" where
  "firstSome [] = None"
| "firstSome (Some x # _) = Some x"
| "firstSome (None # xs) = firstSome xs"

definition matchFrontmatter :: "jsstring \<Rightarrow> (jsstring \<times> jsstring) option" where
  "matchFrontmatter content =
     (if startsWith content (js ''---'')
      then firstSome (map (matchBody []) (wsNewlineEnds (drop 3 content)))
      else None)"

record 'n parsed =
  frontmatter :: "'n jsobject"
  content :: jsstring
  frontmatterRaw :: "jsstring option"

text \<open>
  \<^verbatim>\<open>
  manualParse(content) {
      const frontmatterMatch = content.match(/^---\s*\n([\s\S]*?)\n---\s*\n/);
      if (frontmatterMatch) {
          const frontmatterRaw = frontmatterMatch[1];
          const contentWithoutFrontmatter = content.replace(/^---\s*\n[\s\S]*?\n---\s*\n/, '');
          return { frontmatter: this.parseYamlLike(frontmatterRaw),
                   content: contentWithoutFrontmatter, frontmatterRaw };
      }
      return { frontmatter: {}, content, frontmatterRaw: null };
  }
  \<close>
\<close>

definition manualParse :: "'n host \<Rightarrow> jsstring \<Rightarrow> 'n parsed" where
  "manualParse H text =
     (case matchFrontmatter text of
        Some (raw, rest) \<Rightarrow>
          \<lparr>frontmatter = parseYamlLike H raw, content = rest, frontmatterRaw = Some raw\<rparr>
      | None \<Rightarrow> \<lparr>frontmatter = [], content = text, frontmatterRaw = None\<rparr>)"

text \<open>
  \<^verbatim>\<open>
  parseMarkdown(content) {
      try {
          const parsed = matter(content);
          return { frontmatter: parsed.data, content: parsed.content, frontmatterRaw: parsed.matter };
      } catch (error) {
          return this.manualParse(content);
      }
  }
  \<close>
\<close>

definition parseMarkdown :: "'n host \<Rightarrow> jsstring \<Rightarrow> 'n parsed" where
  "parseMarkdown H text =
     (case matter H text of
        Some (d, c, m) \<Rightarrow> \<lparr>frontmatter = d, content = c, frontmatterRaw = Some m\<rparr>
      | None \<Rightarrow> manualParse H text)"

section \<open>File analysis (\<open>file-utils.js\<close>)\<close>

text \<open>
  \<open>line.match(/^\s*([^:]+):\s*(.*)$/)\<close>, as the pair of its two groups. The first group ends
  before the first colon and must not be empty: when only white space precedes the colon, the
  matcher gives the last of it back to the group. The second group is what follows the white
  space after the colon, and \<open>.\<close> must reach the end of the line.
\<close>

definition matchKeyValue :: "jsstring \<Rightarrow> (jsstring \<times> jsstring) option" where
  "matchKeyValue line =
     (let pre = takeWhile (\<lambda>c. c \<noteq> colon) line;
          post = dropWhile isWhiteSpace (drop (Suc (length pre)) line)
      in if colon \<notin> set line \<or> pre = [] \<or> (\<exists>c \<in> set post. isLineTerminator c) then None
         else Some (if dropWhile isWhiteSpace pre = [] then [last pre] else dropWhile isWhiteSpace pre,
                    post))"

definition isQuote :: "jschar \<Rightarrow> bool" where
  "isQuote c \<longleftrightarrow> c = dquote \<or> c = squote"

text \<open>
  The value of a frontmatter line:
  \<^verbatim>\<open>
  if (value.startsWith('[') && value.endsWith(']')) {
      value = value.slice(1, -1).split(',').map(s => s.trim().replace(/^["']|["']$/g, ''));
  } else if (value === 'true' || value === 'false') {
      value = value === 'true';
  } else if (!isNaN(Number(value)) && value !== '') {
      value = Number(value);
  } else {
      value = value.replace(/^["']|["']$/g, '');
  }
  \<close>
\<close>

definition analyzeValue :: "'n host \<Rightarrow> jsstring \<Rightarrow> 'n jsvalue" where
  "analyzeValue H v =
     (if startsWith v [lbracket] \<and> endsWith v [rbracket]
      then JArr (map (\<lambda>s. JStr (stripEdges isQuote (trim s))) (splitOn comma (slice1 v)))
      else if v = js ''true'' \<or> v = js ''false'' then JBool (v = js ''true'')
      else if \<not> isNaN H (Number H v) \<and> v \<noteq> [] then JNum (Number H v)
      else JStr (stripEdges isQuote v))"

text \<open>
  The body of the loop over the lines of the block:
  \<^verbatim>\<open>
  const match = line.match(/^\s*([^:]+):\s*(.*)$/);
  if (match) {
      const key = match[1].trim();
      let value = match[2].trim();
      ...
      analysis.frontmatter[key] = value;
  }
  \<close>
\<close>

definition analyzeLine :: "'n host \<Rightarrow> 'n jsobject \<Rightarrow> jsstring \<Rightarrow> 'n jsobject" where
  "analyzeLine H fm line =
     (case matchKeyValue line of
        None \<Rightarrow> fm
      | Some (k, v) \<Rightarrow> setProp fm (trim k) (analyzeValue H (trim v)))"

text \<open>The class \<open>[a-zA-Z0-9_-]\<close>.\<close>

definition isTagChar :: "jschar \<Rightarrow> bool" where
  "isTagChar c \<longleftrightarrow>
     (97 \<le> c \<and> c \<le> 122) \<or> (65 \<le> c \<and> c \<le> 90) \<or> (48 \<le> c \<and> c \<le> 57)
     \<or> c = underscore \<or> c = hyphen"

text \<open>The first groups of \<open>s.matchAll(/#([a-zA-Z0-9_-]+)/g)\<close>, in order.\<close>

function hashtagMatches :: "jsstring \<Rightarrow> jsstring list" where
  "hashtagMatches [] = []"
| "hashtagMatches (c # cs) =
     (if c = hash \<and> takeWhile isTagChar cs \<noteq> []
      then takeWhile isTagChar cs # hashtagMatches (dropWhile isTagChar cs)
      else hashtagMatches cs)"
  by pat_completeness auto
termination
  by (relation "measure length") (auto simp: length_dropWhile_le less_Suc_eq_le)

text \<open>\<open>if (!tags.includes(tag)) tags.push(tag)\<close>.\<close>

definition pushNew :: "'a list \<Rightarrow> 'a \<Rightarrow> 'a list" where
  "pushNew tags tag = (if tag \<in> set tags then tags else tags @ [tag])"

text \<open>
  The part of \<open>analyzeMarkdownFile\<close> that yields the frontmatter and the tags (the counts, the
  headings and the links are computed from the same text and feed neither):
  \<^verbatim>\<open>
  const frontmatterMatch = content.match(/^---\s*\n([\s\S]*?)\n---\s*\n/);
  if (frontmatterMatch) {
      analysis.frontmatterRaw = frontmatterMatch[1];
      const lines = analysis.frontmatterRaw.split('\n');
      for (const line of lines) { ... }
  }
  const contentWithoutFrontmatter = content.replace(/^---\s*\n[\s\S]*?\n---\s*\n/, '');
  ...
  const tagMatches = contentWithoutFrontmatter.matchAll(/#([a-zA-Z0-9_-]+)/g);
  for (const match of tagMatches) {
      if (!analysis.tags.includes(match[1])) analysis.tags.push(match[1]);
  }
  if (analysis.frontmatter.tags) {
      const frontmatterTags = Array.isArray(analysis.frontmatter.tags)
          ? analysis.frontmatter.tags : [analysis.frontmatter.tags];
      for (const tag of frontmatterTags) {
          if (!analysis.tags.includes(tag)) analysis.tags.push(tag);
      }
  }
  \<close>
\<close>

record 'n analysis =
  analysisFrontmatter :: "'n jsobject"
  analysisFrontmatterRaw :: "jsstring option"
  tags :: "'n jsvalue list"

definition contentWithoutFrontmatter :: "jsstring \<Rightarrow> jsstring" where
  "contentWithoutFrontmatter text =
     (case matchFrontmatter text of Some (raw, rest) \<Rightarrow> rest | None \<Rightarrow> text)"

definition frontmatterTags :: "'n host \<Rightarrow> 'n jsobject \<Rightarrow> 'n jsvalue list" where
  "frontmatterTags H fm =
     (case getProp fm (js ''tags'') of
        None \<Rightarrow> []
      | Some t \<Rightarrow> if truthy H t then (case t of JArr xs \<Rightarrow> xs | _ \<Rightarrow> [t]) else [])"

definition analyzeMarkdownFile :: "'n host \<Rightarrow> jsstring \<Rightarrow> 'n analysis" where
  "analyzeMarkdownFile H text =
     (let raw = map_option fst (matchFrontmatter text);
          fm = (case raw of None \<Rightarrow> [] | Some r \<Rightarrow> foldl (analyzeLine H) [] (splitOn LF r));
          bodyTags = foldl pushNew [] (map JStr (hashtagMatches (contentWithoutFrontmatter text)))
      in \<lparr>analysisFrontmatter = fm, analysisFrontmatterRaw = raw,
          tags = foldl pushNew bodyTags (frontmatterTags H fm)\<rparr>)"

section \<open>Property names (\<open>property-manager.js\<close>)\<close>

datatype propType = PDate | PArray | PString | PNumber

text \<open>The \<open>standardProperties\<close> map of the constructor, in insertion order: name, type, aliases.\<close>

definition standardProperties :: "(jsstring \<times> propType \<times> jsstring list) list" where
  "standardProperties =
     [(js ''created'', PDate, [js ''date-created'', js ''dateCreated'', js ''creation-date'']),
      (js ''modified'', PDate, [js ''date-modified'', js ''dateModified'', js ''last-modified'']),
      (js ''tags'', PArray, [js ''tag'', js ''categories'', js ''category'']),
      (js ''title'', PString, [js ''name'', js ''heading'']),
      (js ''author'', PString, [js ''creator'', js ''writer'']),
      (js ''status'', PString, [js ''state'']),
      (js ''priority'', PNumber, [js ''importance'']),
      (js ''type'', PString, [js ''kind'', js ''category'']),
      (js ''description'', PString, [js ''summary'', js ''excerpt'']),
      (js ''source'', PString, [js ''reference'', js ''url'', js ''link''])]"

text \<open>
  \<^verbatim>\<open>
  arePropertiesSimilar(prop1, prop2) {
      const normalize = (str) => str.toLowerCase().replace(/[-_\s]/g, '');
      return normalize(prop1) === normalize(prop2);
  }
  \<close>
\<close>

definition normalize :: "jsstring \<Rightarrow> jsstring" where
  "normalize str =
     filter (\<lambda>c. \<not> (c = hyphen \<or> c = underscore \<or> isWhiteSpace c)) (toLowerCase str)"

definition arePropertiesSimilar :: "jsstring \<Rightarrow> jsstring \<Rightarrow> bool" where
  "arePropertiesSimilar prop1 prop2 \<longleftrightarrow> normalize prop1 = normalize prop2"

text \<open>
  \<^verbatim>\<open>
  findStandardProperty(propertyName) {
      const lowerName = propertyName.toLowerCase();
      if (this.standardProperties.has(lowerName)) return lowerName;
      for (const [standardName, config] of this.standardProperties) {
          if (config.aliases && config.aliases.includes(lowerName)) return standardName;
      }
      for (const standardName of this.standardProperties.keys()) {
          if (this.arePropertiesSimilar(lowerName, standardName)) return standardName;
      }
      return propertyName;
  }
  \<close>
\<close>

definition findStandardProperty :: "jsstring \<Rightarrow> jsstring" where
  "findStandardProperty propertyName =
     (let lowerName = toLowerCase propertyName in
      if lowerName \<in> set (map fst standardProperties) then lowerName
      else
        (case find (\<lambda>(standardName, ty, aliases). lowerName \<in> set aliases) standardProperties of
           Some (standardName, config) \<Rightarrow> standardName
         | None \<Rightarrow>
             (case find (\<lambda>standardName. arePropertiesSimilar lowerName standardName)
                     (map fst standardProperties) of
                Some standardName \<Rightarrow> standardName
              | None \<Rightarrow> propertyName)))"

text \<open>
  \<^verbatim>\<open>
  standardizePropertyNames(frontmatter) {
      const standardized = {};
      const mappings = [];
      for (const [key, value] of Object.entries(frontmatter)) {
          const standardKey = this.findStandardProperty(key);
          if (standardKey !== key) mappings.push({ from: key, to: standardKey });
          standardized[standardKey] = value;
      }
      return { frontmatter: standardized, mappings };
  }
  \<close>
  The result is the pair (frontmatter, mappings); a mapping is the pair (from, to).
\<close>

definition standardizeStep ::
  "'n jsobject \<times> (jsstring \<times> jsstring) list \<Rightarrow> jsstring \<times> 'n jsvalue
     \<Rightarrow> 'n jsobject \<times> (jsstring \<times> jsstring) list" where
  "standardizeStep acc entry =
     (case (acc, entry) of
        ((standardized, mappings), (key, v)) \<Rightarrow>
          (let standardKey = findStandardProperty key
           in (setProp standardized standardKey v,
               if standardKey \<noteq> key then mappings @ [(key, standardKey)] else mappings)))"

definition standardizePropertyNames ::
  "'n jsobject \<Rightarrow> 'n jsobject \<times> (jsstring \<times> jsstring) list" where
  "standardizePropertyNames fm = foldl standardizeStep ([], []) fm"

section \<open>Errors and dates\<close>

datatype jserror =
    RangeError    \<comment> \<open>\<open>toISOString\<close> of an invalid date\<close>
  | ENOENT        \<comment> \<open>no such file or directory\<close>
  | EACCES        \<comment> \<open>permission denied\<close>
  | DestExists    \<comment> \<open>fs-extra: \<open>dest already exists.\<close>\<close>

text \<open>The last \<open>n\<close> decimal digits of \<open>k\<close>.\<close>

fun pad :: "nat \<Rightarrow> nat \<Rightarrow> jsstring" where
  "pad 0 k = []"
| "pad (Suc n) k = pad n (k div 10) @ [48 + k mod 10]"

text \<open>
  \<open>Date.prototype.toISOString\<close>: \<open>YYYY-MM-DDTHH:mm:ss.sssZ\<close>, with a sign and six digits for a
  year outside 0..9999, and a \<open>RangeError\<close> for an invalid date.
\<close>

definition toISOString :: "jsdate \<Rightarrow> jserror + jsstring" where
  "toISOString d =
     (case d of
        InvalidDate \<Rightarrow> Inl RangeError
      | ValidDate u \<Rightarrow>
          Inr ((if 0 \<le> utcYear u \<and> utcYear u \<le> 9999 then pad 4 (nat (utcYear u))
                else (if utcYear u < 0 then js ''-'' else js ''+'') @ pad 6 (nat \<bar>utcYear u\<bar>))
               @ js ''-'' @ pad 2 (utcMonth u) @ js ''-'' @ pad 2 (utcDay u)
               @ js ''T'' @ pad 2 (utcHours u) @ js '':'' @ pad 2 (utcMinutes u)
               @ js '':'' @ pad 2 (utcSeconds u) @ js ''.'' @ pad 3 (utcMillis u) @ js ''Z''))"

text \<open>\<open>date.toISOString().split('T')[0]\<close>.\<close>

definition isoDay :: "jsdate \<Rightarrow> jserror + jsstring" where
  "isoDay d = (case toISOString d of Inl e \<Rightarrow> Inl e | Inr s \<Rightarrow> Inr (hd (splitOn 84 s)))"

section \<open>Missing properties (\<open>property-manager.js\<close>)\<close>

text \<open>The \<open>fileStats\<close> argument: an object with the optional fields \<open>birthtime\<close> and \<open>mtime\<close>.\<close>

record fileStats =
  birthtime :: "jsdate option"
  mtime :: "jsdate option"

text \<open>\<open>obj[key]\<close> read as a condition: \<open>undefined\<close> is falsy.\<close>

definition propTruthy :: "'n host \<Rightarrow> 'n jsobject \<Rightarrow> jsstring \<Rightarrow> bool" where
  "propTruthy H obj key = (case getProp obj key of None \<Rightarrow> False | Some v \<Rightarrow> truthy H v)"

text \<open>
  \<^verbatim>\<open>
  if (!updated.created && fileStats?.birthtime) {
      updated.created = fileStats.birthtime.toISOString().split('T')[0];
      additions.push({ property: 'created', value: updated.created });
  }
  \<close>
  and the same for \<open>modified\<close> and \<open>mtime\<close>. The state is the pair (updated, additions); an
  addition is the pair (property, value).
\<close>

definition addDate ::
  "'n host \<Rightarrow> jsstring \<Rightarrow> jsdate option
     \<Rightarrow> 'n jsobject \<times> (jsstring \<times> 'n jsvalue) list
     \<Rightarrow> jserror + 'n jsobject \<times> (jsstring \<times> 'n jsvalue) list" where
  "addDate H key stamp st =
     (case st of
        (updated, additions) \<Rightarrow>
          (case stamp of
             Some d \<Rightarrow>
               if \<not> propTruthy H updated key then
                 (case isoDay d of
                    Inl e \<Rightarrow> Inl e
                  | Inr day \<Rightarrow> Inr (setProp updated key (JStr day), additions @ [(key, JStr day)]))
               else Inr st
           | None \<Rightarrow> Inr st))"

text \<open>
  \<^verbatim>\<open>
  if (!updated.tags) {
      updated.tags = [];
      additions.push({ property: 'tags', value: [] });
  }
  \<close>
\<close>

definition addTags ::
  "'n host \<Rightarrow> 'n jsobject \<times> (jsstring \<times> 'n jsvalue) list
     \<Rightarrow> 'n jsobject \<times> (jsstring \<times> 'n jsvalue) list" where
  "addTags H st =
     (case st of
        (updated, additions) \<Rightarrow>
          if \<not> propTruthy H updated (js ''tags'')
          then (setProp updated (js ''tags'') (JArr []), additions @ [(js ''tags'', JArr [])])
          else st)"

text \<open>
  \<^verbatim>\<open>
  addMissingProperties(frontmatter, filePath, fileStats) {
      const updated = { ...frontmatter };
      const additions = [];
      ... created ... modified ... tags ...
      return { frontmatter: updated, additions };
  }
  \<close>
  \<open>fileStats\<close> may be \<open>undefined\<close> (\<open>None\<close>); the result is the pair (frontmatter, additions), or
  the error that \<open>toISOString\<close> throws.
\<close>

definition addMissingProperties ::
  "'n host \<Rightarrow> 'n jsobject \<Rightarrow> jsstring \<Rightarrow> fileStats option
     \<Rightarrow> jserror + 'n jsobject \<times> (jsstring \<times> 'n jsvalue) list" where
  "addMissingProperties H fm filePath stats =
     (case addDate H (js ''created'') (case stats of None \<Rightarrow> None | Some s \<Rightarrow> birthtime s)
             (spread fm [], []) of
        Inl e \<Rightarrow> Inl e
      | Inr st1 \<Rightarrow>
          (case addDate H (js ''modified'') (case stats of None \<Rightarrow> None | Some s \<Rightarrow> mtime s) st1 of
             Inl e \<Rightarrow> Inl e
           | Inr st2 \<Rightarrow> Inr (addTags H st2)))"

section \<open>File operations (\<open>file-processor.js\<close>, \<open>file-organizer.js\<close>)\<close>

text \<open>
  The files on disk, as a map from path to content. The operations are those of \<open>fs-extra\<close>
  on regular files: \<open>readFile\<close> and \<open>copy\<close> fail when the source is missing, \<open>copy\<close> and
  \<open>writeFile\<close> overwrite, \<open>move\<close> (with its default \<open>overwrite: false\<close>) fails when the source is
  missing or the destination exists. Directories are implicit, so \<open>ensureDir\<close> changes nothing.
\<close>

type_synonym store = "jsstring \<rightharpoonup> jsstring"

definition readFile :: "store \<Rightarrow> jsstring \<Rightarrow> jserror + jsstring" where
  "readFile st p = (case st p of None \<Rightarrow> Inl ENOENT | Some c \<Rightarrow> Inr c)"

definition copy :: "store \<Rightarrow> jsstring \<Rightarrow> jsstring \<Rightarrow> jserror + store" where
  "copy st src dest = (case st src of None \<Rightarrow> Inl ENOENT | Some c \<Rightarrow> Inr (st(dest \<mapsto> c)))"

definition writeFile :: "store \<Rightarrow> jsstring \<Rightarrow> jsstring \<Rightarrow> jserror + store" where
  "writeFile st p c = Inr (st(p \<mapsto> c))"

definition move :: "store \<Rightarrow> jsstring \<Rightarrow> jsstring \<Rightarrow> jserror + store" where
  "move st src dest =
     (case st src of
        None \<Rightarrow> Inl ENOENT
      | Some c \<Rightarrow> if st dest \<noteq> None then Inl DestExists else Inr ((st(src := None))(dest \<mapsto> c)))"

text \<open>
  \<^verbatim>\<open>
  async updateFile(filePath, newContent) {
      try {
          const backupPath = `${filePath}.backup.${Date.now()}`;
          await fs.copy(filePath, backupPath);
          await fs.writeFile(filePath, newContent, 'utf-8');
          return { success: true, backupPath };
      } catch (error) { ...; throw error; }
  }
  \<close>
  \<open>now\<close> is the rendering of \<open>Date.now()\<close>; the result is the new store and \<open>backupPath\<close>.
\<close>

definition updateFile ::
  "store \<Rightarrow> jsstring \<Rightarrow> jsstring \<Rightarrow> jsstring \<Rightarrow> jserror + store \<times> jsstring" where
  "updateFile st now filePath newContent =
     (let backupPath = filePath @ js ''.backup.'' @ now in
      case copy st filePath backupPath of
        Inl e \<Rightarrow> Inl e
      | Inr st1 \<Rightarrow>
          (case writeFile st1 filePath newContent of
             Inl e \<Rightarrow> Inl e
           | Inr st2 \<Rightarrow> Inr (st2, backupPath)))"

text \<open>
  \<^verbatim>\<open>
  async updateFileFrontmatter(filePath, newFrontmatter) {
      try {
          const content = await fs.readFile(filePath, 'utf-8');
          const parsed = this.markdownUtils.parseMarkdown(content);
          const updatedContent = this.markdownUtils.stringifyMarkdown({
              frontmatter: { ...parsed.frontmatter, ...newFrontmatter },
              content: parsed.content
          });
          return await this.updateFile(filePath, updatedContent);
      } catch (error) { ...; throw error; }
  }
  \<close>
\<close>

definition updateFileFrontmatter ::
  "'n host \<Rightarrow> store \<Rightarrow> jsstring \<Rightarrow> jsstring \<Rightarrow> 'n jsobject \<Rightarrow> jserror + store \<times> jsstring" where
  "updateFileFrontmatter H st now filePath newFrontmatter =
     (case readFile st filePath of
        Inl e \<Rightarrow> Inl e
      | Inr text \<Rightarrow>
          (let parsed = parseMarkdown H text;
               updatedContent =
                 stringifyMarkdown H (spread (frontmatter parsed) newFrontmatter) (content parsed)
           in updateFile st now filePath updatedContent))"

text \<open>
  \<^verbatim>\<open>
  async moveFile(oldPath, newPath) {
      try {
          await fs.ensureDir(path.dirname(newPath));
          await fs.move(oldPath, newPath);
          return { success: true, newPath };
      } catch (error) { ...; throw error; }
  }
  \<close>
\<close>

definition moveFile :: "store \<Rightarrow> jsstring \<Rightarrow> jsstring \<Rightarrow> jserror + store \<times> jsstring" where
  "moveFile st oldPath newPath =
     (case move st oldPath newPath of Inl e \<Rightarrow> Inl e | Inr st1 \<Rightarrow> Inr (st1, newPath))"

text \<open>A move operation \<open>{ from, to, folder }\<close>.\<close>

record moveOp =
  opFrom :: jsstring
  opTo :: jsstring
  opFolder :: jsstring

text \<open>
  The loop of \<open>executeMoveOperations\<close>, with the store, \<open>successCount\<close> and \<open>errors\<close> as its state:
  \<^verbatim>\<open>
  for (const operation of operations) {
      try {
          await this.fileProcessor.moveFile(operation.from, operation.to);
          successCount++;
          this.logger.progress(successCount, operations.length);
      } catch (error) {
          errors.push({ operation, error });
      }
  }
  \<close>
\<close>

fun moveLoop ::
  "store \<Rightarrow> nat \<Rightarrow> (moveOp \<times> jserror) list \<Rightarrow> moveOp list
     \<Rightarrow> store \<times> nat \<times> (moveOp \<times> jserror) list" where
  "moveLoop st successCount errors [] = (st, successCount, errors)"
| "moveLoop st successCount errors (operation # rest) =
     (case moveFile st (opFrom operation) (opTo operation) of
        Inr (st1, newPath) \<Rightarrow> moveLoop st1 (successCount + 1) errors rest
      | Inl error \<Rightarrow> moveLoop st successCount (errors @ [(operation, error)]) rest)"

text \<open>
  \<^verbatim>\<open>
  async executeMoveOperations(operations) {
      const shouldProceed = await this.showMovePreview(operations);
      if (!shouldProceed) { this.logger.info('Operation cancelled by user'); return; }
      let successCount = 0;
      const errors = [];
      for (...) { ... }
      this.logger.success(`Moved ${successCount} files successfully`);
      if (errors.length > 0) this.logger.warn(`${errors.length} move operations failed`);
  }
  \<close>
  \<open>shouldProceed\<close> is the operator's answer to the preview; the logger only prints. The result
  is the new store and what the function reports: \<open>None\<close> when cancelled, else \<open>successCount\<close>
  and \<open>errors\<close>.
\<close>

definition executeMoveOperations ::
  "bool \<Rightarrow> store \<Rightarrow> moveOp list \<Rightarrow> store \<times> (nat \<times> (moveOp \<times> jserror) list) option" where
  "executeMoveOperations shouldProceed st operations =
     (if \<not> shouldProceed then (st, None)
      else (case moveLoop st 0 [] operations of
              (st1, successCount, errors) \<Rightarrow> (st1, Some (successCount, errors))))"

text \<open>
  What happens to each operation when the operations are attempted one after the other, each on
  the store its predecessors left: \<open>None\<close> for a move that succeeds, the error for one that fails.
\<close>

fun moveOutcomes :: "store \<Rightarrow> moveOp list \<Rightarrow> jserror option list" where
  "moveOutcomes st [] = []"
| "moveOutcomes st (operation # rest) =
     (case moveFile st (opFrom operation) (opTo operation) of
        Inr (st1, newPath) \<Rightarrow> None # moveOutcomes st1 rest
      | Inl error \<Rightarrow> Some error # moveOutcomes st rest)"

section \<open>Vault detection (\<open>vault-manager.js\<close>)\<close>

text \<open>
  The collaborators of \<open>analyzeDirectory\<close>: \<open>fs.stat\<close> (which throws for a path that does not
  exist or cannot be reached), \<open>fs.pathExists\<close>, \<open>glob\<close> with its pattern and its \<open>cwd\<close> and
  \<open>ignore\<close> options, \<open>path.join\<close> and \<open>path.basename\<close>.
\<close>

record stats =
  isDirectory :: bool

record globOptions =
  cwd :: jsstring
  ignore :: "jsstring list"

record fsys =
  stat :: "jsstring \<Rightarrow> jserror + stats"
  pathExists :: "jsstring \<Rightarrow> bool"
  glob :: "jsstring \<Rightarrow> globOptions \<Rightarrow> jsstring list"
  pathJoin :: "jsstring \<Rightarrow> jsstring \<Rightarrow> jsstring"
  pathBasename :: "jsstring \<Rightarrow> jsstring"

record vaultInfo =
  name :: jsstring
  path :: jsstring
  isVault :: bool
  hasObsidianFolder :: bool
  markdownFiles :: nat
  totalFiles :: nat

text \<open>
  \<^verbatim>\<open>
  async analyzeDirectory(dirPath) {
      const vaultInfo = { name: path.basename(dirPath), path: dirPath, isVault: false,
                          hasObsidianFolder: false, markdownFiles: 0, totalFiles: 0, structure: {} };
      try {
          const stats = await fs.stat(dirPath);
          if (!stats.isDirectory()) return vaultInfo;
          const obsidianPath = path.join(dirPath, '.obsidian');
          vaultInfo.hasObsidianFolder = await fs.pathExists(obsidianPath);
          const markdownFiles = await glob('**/*.md', {
              cwd: dirPath, ignore: ['node_modules/**', '.git/**', '.obsidian/**'] });
          vaultInfo.markdownFiles = markdownFiles.length;
          vaultInfo.totalFiles = markdownFiles.length;
          vaultInfo.isVault = vaultInfo.hasObsidianFolder || vaultInfo.markdownFiles > 0;
          return vaultInfo;
      } catch (error) {
          this.logger.debug(...);
          return vaultInfo;
      }
  }
  \<close>
  \<open>analyzeTry\<close> is the body of the \<open>try\<close> block, run on the initial descriptor; the only call in
  it that throws is \<open>fs.stat\<close>, before the descriptor is changed. \<open>analyzeDirectory\<close> is the whole
  function: \<open>Inl\<close> would be an exception that leaves it.
\<close>

definition analyzeTry :: "fsys \<Rightarrow> vaultInfo \<Rightarrow> jsstring \<Rightarrow> jserror + vaultInfo" where
  "analyzeTry F vaultInfo dirPath =
     (case stat F dirPath of
        Inl error \<Rightarrow> Inl error
      | Inr stats \<Rightarrow>
          if \<not> isDirectory stats then Inr vaultInfo
          else
            (let obsidianPath = pathJoin F dirPath (js ''.obsidian'');
                 v1 = vaultInfo\<lparr>hasObsidianFolder := pathExists F obsidianPath\<rparr>;
                 found = glob F (js ''**/*.md'')
                           \<lparr>cwd = dirPath,
                            ignore = [js ''node_modules/**'', js ''.git/**'', js ''.obsidian/**'']\<rparr>;
                 v2 = v1\<lparr>markdownFiles := length found, totalFiles := length found\<rparr>
             in Inr (v2\<lparr>isVault := hasObsidianFolder v2 \<or> markdownFiles v2 > 0\<rparr>)))"

definition analyzeDirectory :: "fsys \<Rightarrow> jsstring \<Rightarrow> jserror + vaultInfo" where
  "analyzeDirectory F dirPath =
     (let vaultInfo = \<lparr>name = pathBasename F dirPath, path = dirPath, isVault = False,
                       hasObsidianFolder = False, markdownFiles = 0, totalFiles = 0\<rparr>
      in case analyzeTry F vaultInfo dirPath of
           Inl error \<Rightarrow> Inr vaultInfo
         | Inr v \<Rightarrow> Inr v)"

section \<open>A host and a disk for examples\<close>

text \<open>
  The statements below hold for every host. To run the definitions on concrete inputs, a host is
  fixed whose numbers are the naturals and \<open>NaN\<close> (\<open>None\<close>): \<open>Number\<close> reads a string of decimal
  digits (the empty string is 0, as in JavaScript) and gives \<open>NaN\<close> for every other string, its
  time zone is UTC, and \<open>matter\<close> throws, so that \<open>parseMarkdown\<close> takes its fallback. The
  examples pass \<open>Number\<close> no numeric literal of another form.
\<close>

function decimal :: "nat \<Rightarrow> jsstring" where
  "decimal n = (if n < 10 then [48 + n] else decimal (n div 10) @ [48 + n mod 10])"
  by pat_completeness auto
termination
  by (relation "measure id") auto

text \<open>
  \<open>Date.prototype.toString\<close> in the time zone UTC: the day of the week (0 is Sunday, by
  Sakamoto's rule on the Gregorian date), the month, the day, the year on four digits or more,
  the time and the zone, as in \<open>Fri Mar 01 2024 00:00:00 GMT+0000 (Coordinated Universal Time)\<close>.
\<close>

definition weekDay :: "utc \<Rightarrow> nat" where
  "weekDay u =
     (let y = (if utcMonth u < 3 then utcYear u - 1 else utcYear u)
      in nat ((y + y div 4 - y div 100 + y div 400
               + [0, 3, 2, 5, 0, 3, 5, 1, 4, 6, 2, 4] ! ((utcMonth u - 1) mod 12)
               + int (utcDay u)) mod 7))"

definition utcToString :: "utc \<Rightarrow> jsstring" where
  "utcToString u =
     [js ''Sun'', js ''Mon'', js ''Tue'', js ''Wed'', js ''Thu'', js ''Fri'', js ''Sat''] ! weekDay u
     @ js '' ''
     @ [js ''Jan'', js ''Feb'', js ''Mar'', js ''Apr'', js ''May'', js ''Jun'', js ''Jul'',
        js ''Aug'', js ''Sep'', js ''Oct'', js ''Nov'', js ''Dec''] ! ((utcMonth u - 1) mod 12)
     @ js '' '' @ pad 2 (utcDay u) @ js '' ''
     @ (if utcYear u < 0 then js ''-'' else [])
     @ (if \<bar>utcYear u\<bar> < 10000 then pad 4 (nat \<bar>utcYear u\<bar>) else decimal (nat \<bar>utcYear u\<bar>))
     @ js '' '' @ pad 2 (utcHours u) @ js '':'' @ pad 2 (utcMinutes u)
     @ js '':'' @ pad 2 (utcSeconds u) @ js '' GMT+0000 (Coordinated Universal Time)''"

definition exampleHost :: "nat option host" where
  "exampleHost =
     \<lparr>Number = (\<lambda>s. if list_all isDigit s then Some (foldl (\<lambda>n c. 10 * n + (c - 48)) 0 s)
                     else None),
      isNaN = (\<lambda>n. n = None),
      isZero = (\<lambda>n. n = Some 0),
      numberToString = (\<lambda>n. case n of None \<Rightarrow> js ''NaN'' | Some k \<Rightarrow> decimal k),
      dateToString = utcToString,
      matter = (\<lambda>text. None)\<rparr>"

text \<open>
  A disk for examples: the list of its entries, each an absolute path (as its segments) with
  its kind. The collaborators of \<open>analyzeDirectory\<close> on such a disk follow the documentation of
  Node and of the \<open>glob\<close> package: \<open>*\<close> matches within a name, \<open>**\<close> matches any number of
  directories, neither matches a name that starts with a dot unless the pattern is an \<open>ignore\<close>
  pattern, and a path is returned when it matches the pattern and no \<open>ignore\<close> pattern.
\<close>

datatype kind = RegularFile | Directory

type_synonym disk = "(jsstring list \<times> kind) list"

definition segments :: "jsstring \<Rightarrow> jsstring list" where
  "segments p = filter (\<lambda>s. s \<noteq> []) (splitOn 47 p)"

fun wildcardMatch :: "jsstring \<Rightarrow> jsstring \<Rightarrow> bool" where
  "wildcardMatch [] s = (s = [])"
| "wildcardMatch (p # ps) [] = (p = 42 \<and> wildcardMatch ps [])"
| "wildcardMatch (p # ps) (c # cs) =
     (if p = 42 then wildcardMatch ps (c # cs) \<or> wildcardMatch (p # ps) cs
      else p = c \<and> wildcardMatch ps cs)"

definition hidden :: "jsstring \<Rightarrow> bool" where
  "hidden s \<longleftrightarrow> startsWith s (js ''.'')"

definition segmentMatch :: "bool \<Rightarrow> jsstring \<Rightarrow> jsstring \<Rightarrow> bool" where
  "segmentMatch dot pat s \<longleftrightarrow> wildcardMatch pat s \<and> (dot \<or> \<not> hidden s \<or> hidden pat)"

fun globMatch :: "bool \<Rightarrow> jsstring list \<Rightarrow> jsstring list \<Rightarrow> bool" where
  "globMatch dot [] ss = (ss = [])"
| "globMatch dot (p # ps) [] = (p = js ''**'' \<and> globMatch dot ps [])"
| "globMatch dot (p # ps) (s # ss) =
     (if p = js ''**''
      then globMatch dot ps (s # ss) \<or> ((dot \<or> \<not> hidden s) \<and> globMatch dot (p # ps) ss)
      else segmentMatch dot p s \<and> globMatch dot ps ss)"

text \<open>The paths below \<open>dir\<close>, relative to it.\<close>

definition below :: "disk \<Rightarrow> jsstring list \<Rightarrow> jsstring list list" where
  "below d dir =
     map (\<lambda>(p, k). drop (length dir) p)
       (filter (\<lambda>(p, k). length dir < length p \<and> take (length dir) p = dir) d)"

definition diskGlob :: "disk \<Rightarrow> jsstring \<Rightarrow> globOptions \<Rightarrow> jsstring list" where
  "diskGlob d pattern opts =
     map (joinWith (js ''/''))
       (filter (\<lambda>rel. globMatch False (splitOn 47 pattern) rel
                      \<and> \<not> list_ex (\<lambda>ig. globMatch True (splitOn 47 ig) rel) (ignore opts))
          (below d (segments (cwd opts))))"

definition diskFs :: "disk \<Rightarrow> fsys" where
  "diskFs d =
     \<lparr>stat = (\<lambda>p. case map_of d (segments p) of
                    None \<Rightarrow> Inl ENOENT
                  | Some k \<Rightarrow> Inr \<lparr>isDirectory = (k = Directory)\<rparr>),
      pathExists = (\<lambda>p. map_of d (segments p) \<noteq> None),
      glob = diskGlob d,
      pathJoin = (\<lambda>a b. a @ js ''/'' @ b),
      pathBasename = (\<lambda>p. if segments p = [] then [] else last (segments p))\<rparr>"

definition exampleDisk :: disk where
  "exampleDisk =
     [([js ''vault''], Directory),
      ([js ''vault'', js ''.obsidian''], Directory),
      ([js ''vault'', js ''.obsidian'', js ''notes.md''], RegularFile),
      ([js ''notes''], Directory),
      ([js ''notes'', js ''note.markdown''], RegularFile),
      ([js ''notes'', js ''guide.mkd''], RegularFile),
      ([js ''docs''], Directory),
      ([js ''docs'', js ''Simple File.md''], RegularFile),
      ([js ''docs'', js ''sub''], Directory),
      ([js ''docs'', js ''sub'', js ''Another File.md''], RegularFile),
      ([js ''docs'', js ''sub'', js ''draft.mdown''], RegularFile),
      ([js ''docs'', js ''node_modules''], Directory),
      ([js ''docs'', js ''node_modules'', js ''readme.md''], RegularFile)]"

text \<open>Files, move operations and a frontmatter update for examples.\<close>

definition exampleStore :: store where
  "exampleStore = [js ''a.md'' \<mapsto> js ''A'', js ''b.md'' \<mapsto> js ''B'', js ''c.md'' \<mapsto> js ''C'']"

definition exampleOps :: "moveOp list" where
  "exampleOps =
     [\<lparr>opFrom = js ''a.md'', opTo = js ''out/x.md'', opFolder = js ''out''\<rparr>,
      \<lparr>opFrom = js ''b.md'', opTo = js ''out/x.md'', opFolder = js ''out''\<rparr>,
      \<lparr>opFrom = js ''c.md'', opTo = js ''out/y.md'', opFolder = js ''out''\<rparr>]"

text \<open>
  A note whose frontmatter holds a quoted string that reads as a boolean and a YAML timestamp,
  and the same host with gray-matter at work on that note: gray-matter (through js-yaml) gives
  the quoted scalar as the string \<open>true\<close> and the timestamp as a \<open>Date\<close>, the body without the
  line break that follows the closing fence, and the text between the fences.
\<close>

definition flagNote :: jsstring where
  "flagNote = js ''---'' @ [LF] @ js ''flag: '' @ [dquote] @ js ''true'' @ [dquote] @ [LF]
              @ js ''created: 2024-03-01'' @ [LF] @ js ''title: Old'' @ [LF]
              @ js ''---'' @ [LF] @ js ''Body text''"

definition grayMatterHost :: "nat option host" where
  "grayMatterHost =
     exampleHost\<lparr>matter :=
       (\<lambda>input. if input = flagNote
          then Some ([(js ''flag'', JStr (js ''true'')),
                      (js ''created'',
                       JDate (ValidDate \<lparr>utcYear = 2024, utcMonth = 3, utcDay = 1, utcHours = 0,
                                          utcMinutes = 0, utcSeconds = 0, utcMillis = 0\<rparr>)),
                      (js ''title'', JStr (js ''Old''))],
                     js ''Body text'',
                     [LF] @ js ''flag: '' @ [dquote] @ js ''true'' @ [dquote] @ [LF]
                     @ js ''created: 2024-03-01'' @ [LF] @ js ''title: Old'')
          else None)\<rparr>"

definition titleUpdate :: "nat option jsobject" where
  "titleUpdate = [(js ''title'', JStr (js ''New''))]"

definition exampleStats :: fileStats where
  "exampleStats =
     \<lparr>birthtime = Some (ValidDate \<lparr>utcYear = 2024, utcMonth = 3, utcDay = 1, utcHours = 9,
                                     utcMinutes = 30, utcSeconds = 0, utcMillis = 0\<rparr>),
      mtime = None\<rparr>"

definition taggedNote :: jsstring where
  "taggedNote = js ''---'' @ [LF] @ js ''tags: [tag2, tag3]'' @ [LF] @ js ''---'' @ [LF]
                @ js ''content with #tag1 and #tag2''"

definition commaTagsNote :: jsstring where
  "commaTagsNote = js ''---'' @ [LF] @ js ''tags: a, b'' @ [LF] @ js ''---'' @ [LF]
                   @ js ''plain body''"

definition numberTagNote :: jsstring where
  "numberTagNote = js ''---'' @ [LF] @ js ''tags: 2024'' @ [LF] @ js ''---'' @ [LF]
                   @ js ''plain body''"

chapter \<open>Properties\<close>

section \<open>Strings and objects\<close>

lemma js_simps: "js [] = []" "js (c # cs) = of_char c # js cs"
  by (simp_all add: js_def)

lemmas string_eval =
  js_simps startsWith_def endsWith_def trim_def isWhiteSpace_def slice1_def Let_def

lemma endsWith_iff: "endsWith s p \<longleftrightarrow> (\<exists>pre. s = pre @ p)"
proof
  assume "endsWith s p"
  then have "s = take (length s - length p) s @ p"
    by (metis append_take_drop_id endsWith_def)
  then show "\<exists>pre. s = pre @ p" ..
next
  assume "\<exists>pre. s = pre @ p"
  then show "endsWith s p" by (auto simp: endsWith_def)
qed

lemma splitOn_nonempty: "splitOn sep s \<noteq> []"
  by (induction s) (auto split: list.splits)

lemma splitOn_hd: "sep \<notin> set xs \<Longrightarrow> hd (splitOn sep (xs @ sep # ys)) = xs"
proof (induction xs)
  case Nil
  then show ?case by simp
next
  case (Cons x xs)
  then show ?case
    using splitOn_nonempty[of sep "xs @ sep # ys"]
    by (cases "splitOn sep (xs @ sep # ys)") auto
qed

lemma map_of_setProp: "map_of (setProp obj k v) = (map_of obj)(k \<mapsto> v)"
  by (induction obj k v rule: setProp.induct) auto

lemma keys_setProp:
  "map fst (setProp obj k v) = (if k \<in> set (map fst obj) then map fst obj else map fst obj @ [k])"
  by (induction obj k v rule: setProp.induct) auto

lemma distinct_setProp: "distinct (map fst obj) \<Longrightarrow> distinct (map fst (setProp obj k v))"
  by (simp add: keys_setProp)

lemma setProp_new: "k \<notin> set (map fst obj) \<Longrightarrow> setProp obj k v = obj @ [(k, v)]"
  by (induction obj k v rule: setProp.induct) auto

lemma map_of_assign_all:
  "distinct (map fst xs) \<Longrightarrow>
   map_of (foldl (\<lambda>obj (k, v). setProp obj k v) acc xs) = map_of acc ++ map_of xs"
proof (induction xs arbitrary: acc)
  case Nil
  then show ?case by simp
next
  case (Cons e xs)
  obtain k v where e: "e = (k, v)" by (cases e)
  have notin: "k \<notin> dom (map_of xs)" using Cons.prems e by (auto simp: dom_map_of_conv_image_fst)
  have d: "distinct (map fst xs)" using Cons.prems by simp
  have "map_of (foldl (\<lambda>obj (k, v). setProp obj k v) (setProp acc k v) xs)
          = (map_of acc)(k \<mapsto> v) ++ map_of xs"
    using Cons.IH[OF d, of "setProp acc k v"] by (simp only: map_of_setProp)
  also have "\<dots> = map_of acc ++ (map_of xs)(k \<mapsto> v)"
    using notin by (metis map_add_upd_left map_add_upd)
  also have "(map_of xs)(k \<mapsto> v) = map_of ((k, v) # xs)"
    using notin by (auto simp: fun_eq_iff domIff)
  finally show ?case by (simp add: e)
qed

lemma getProp_spread:
  assumes "distinct (map fst a)" "distinct (map fst b)"
  shows "getProp (spread a b) k = (case getProp b k of Some v \<Rightarrow> Some v | None \<Rightarrow> getProp a k)"
proof -
  have "map_of (foldl (\<lambda>obj (k, v). setProp obj k v) [] a) = map_of a"
    using map_of_assign_all[OF assms(1), of "[]"] by simp
  then have "map_of (spread a b) = map_of a ++ map_of b"
    unfolding spread_def foldl_append using map_of_assign_all[OF assms(2)] by simp
  then show ?thesis by (simp add: getProp_def map_add_def split: option.splits)
qed

lemma pad_numerals:
  "pad 2 k = [48 + k div 10 mod 10, 48 + k mod 10]"
  "pad 3 k = [48 + k div 10 div 10 mod 10, 48 + k div 10 mod 10, 48 + k mod 10]"
  "pad 4 k = [48 + k div 10 div 10 div 10 mod 10, 48 + k div 10 div 10 mod 10,
              48 + k div 10 mod 10, 48 + k mod 10]"
proof -
  have 2: "(2::nat) = Suc (Suc 0)" and 3: "(3::nat) = Suc (Suc (Suc 0))"
    and 4: "(4::nat) = Suc (Suc (Suc (Suc 0)))" by simp_all
  show "pad 2 k = [48 + k div 10 mod 10, 48 + k mod 10]" unfolding 2 by simp
  show "pad 3 k = [48 + k div 10 div 10 mod 10, 48 + k div 10 mod 10, 48 + k mod 10]"
    unfolding 3 by simp
  show "pad 4 k = [48 + k div 10 div 10 div 10 mod 10, 48 + k div 10 div 10 mod 10,
              48 + k div 10 mod 10, 48 + k mod 10]"
    unfolding 4 by simp
qed

section \<open>The recent-vault list\<close>

lemma addToHistory_step:
  "length (recentVaults (addToHistory vm p)) \<le> 10
   \<and> recentVaults (addToHistory vm p) \<noteq> []
   \<and> hd (recentVaults (addToHistory vm p)) = p
   \<and> p \<notin> set (tl (recentVaults (addToHistory vm p)))
   \<and> (distinct (recentVaults vm) \<longrightarrow> distinct (recentVaults (addToHistory vm p)))
   \<and> pendingLoad (addToHistory vm p) = pendingLoad vm"
  by (auto simp: addToHistory_def dest: in_set_takeD)

lemma run_snoc: "run vm (events @ [e]) = step (run vm events) e"
  by (simp add: run_def)

lemma run_append: "run vm (before @ rest) = run (run vm before) rest"
  by (simp add: run_def)

lemma run_settled:
  "pendingLoad vm = [] \<Longrightarrow> run vm events = foldl addToHistory vm (calls events)"
proof (induction events arbitrary: vm rule: calls.induct)
  case 1
  then show ?case by (simp add: run_def)
next
  case (2 vaultPath events)
  have "pendingLoad (addToHistory vm vaultPath) = []" using 2(2) by (simp add: addToHistory_step)
  from 2(1)[OF this] show ?case by (simp add: run_def)
next
  case (3 events)
  have "resumeLoad vm = vm" using 3(2) by (simp add: resumeLoad_def)
  then show ?case using 3 by (simp add: run_def)
qed

lemma run_distinct:
  assumes "distinct (recentVaults vm)" and "list_all distinct (pendingLoad vm)"
  shows "distinct (recentVaults (run vm events)) \<and> list_all distinct (pendingLoad (run vm events))"
proof (induction events rule: rev_induct)
  case Nil
  then show ?case using assms by (simp add: run_def)
next
  case (snoc e events)
  show ?case
  proof (cases e)
    case (Call p)
    then show ?thesis using snoc by (simp add: run_snoc addToHistory_step)
  next
    case LoadResumes
    then show ?thesis
      using snoc by (cases "pendingLoad (run vm events)") (simp_all add: run_snoc resumeLoad_def)
  qed
qed

lemma newVaultManager_distinct:
  assumes "\<forall>h. found = Holds h \<longrightarrow> distinct h"
  shows "distinct (recentVaults (newVaultManager found exists))
         \<and> list_all distinct (pendingLoad (newVaultManager found exists))"
  using assms by (cases found) (simp_all add: newVaultManager_def loadVaultHistory_def)

text \<open>
  Claim C10, as the specification states it, fails on a new manager: a call made before the
  load started by the constructor has finished is overwritten by the load. With a history file
  that holds \<open>/old\<close>, the list after \<open>addToHistory('/tmp')\<close> and the end of the load is \<open>[/old]\<close>;
  with a file that cannot be read it is empty. In both the path of the most recent call is not
  the first element. A file that holds a path twice leaves a list with duplicates, which later
  calls keep.
\<close>

theorem addToHistory_before_load_counterexample:
  "recentVaults (run (newVaultManager (Holds [js ''/old'']) (\<lambda>path. True))
                   [Call (js ''/tmp''), LoadResumes, LoadResumes]) = [js ''/old'']
   \<and> recentVaults (run (newVaultManager Unreadable (\<lambda>path. True))
                     [Call (js ''/tmp''), LoadResumes]) = []
   \<and> recentVaults (run (newVaultManager (Holds [js ''/a'', js ''/a'']) (\<lambda>path. True))
                     [LoadResumes, LoadResumes, Call (js ''/b'')])
       = [js ''/b'', js ''/a'', js ''/a'']"
  by (simp add: run_def newVaultManager_def loadVaultHistory_def resumeLoad_def addToHistory_def
      js_simps)

text \<open>
  Claim C10, amended. Once the load started by the constructor has made its last assignment,
  after any sequence of events with at least one \<open>addToHistory\<close> call the recent-vault list
  holds at most 10 entries, and the path passed to the most recent call is its first element and
  occurs nowhere else in it. The list has no duplicate paths provided the list read from the
  history file had none.
\<close>

theorem addToHistory_after_load:
  assumes "pendingLoad (run (newVaultManager found exists) before) = []"
    and "calls rest \<noteq> []"
  shows "length (recentVaults (run (newVaultManager found exists) (before @ rest))) \<le> 10
         \<and> recentVaults (run (newVaultManager found exists) (before @ rest)) \<noteq> []
         \<and> hd (recentVaults (run (newVaultManager found exists) (before @ rest)))
             = last (calls rest)
         \<and> last (calls rest)
             \<notin> set (tl (recentVaults (run (newVaultManager found exists) (before @ rest))))
         \<and> ((\<forall>h. found = Holds h \<longrightarrow> distinct h)
              \<longrightarrow> distinct (recentVaults (run (newVaultManager found exists) (before @ rest))))"
proof -
  let ?vm = "run (newVaultManager found exists) before"
  from assms(2) obtain qs p where ps: "calls rest = qs @ [p]"
    by (cases "calls rest" rule: rev_cases) auto
  have r: "run (newVaultManager found exists) (before @ rest)
             = addToHistory (foldl addToHistory ?vm qs) p"
    unfolding run_append run_settled[OF assms(1)] ps by simp
  have d: "(\<forall>h. found = Holds h \<longrightarrow> distinct h)
              \<longrightarrow> distinct (recentVaults (run (newVaultManager found exists) (before @ rest)))"
    using run_distinct newVaultManager_distinct by blast
  show ?thesis
    using addToHistory_step[of "foldl addToHistory ?vm qs" p] d unfolding r ps by simp
qed

theorem addToHistory_after_load_witness:
  "pendingLoad (run (newVaultManager (Holds [js ''/a'', js ''/b'']) (\<lambda>path. path \<noteq> js ''/b''))
                  [Call (js ''/x''), LoadResumes, LoadResumes]) = []
   \<and> calls [Call (js ''/c''), LoadResumes, Call (js ''/a'')] \<noteq> []
   \<and> distinct [js ''/a'', js ''/b'']
   \<and> recentVaults (run (newVaultManager (Holds [js ''/a'', js ''/b'']) (\<lambda>path. path \<noteq> js ''/b''))
                     ([Call (js ''/x''), LoadResumes, LoadResumes]
                      @ [Call (js ''/c''), LoadResumes, Call (js ''/a'')]))
       = [js ''/a'', js ''/c'']
   \<and> length [js ''/a'', js ''/c''] \<le> 10
   \<and> hd [js ''/a'', js ''/c''] = last (calls [Call (js ''/c''), LoadResumes, Call (js ''/a'')])
   \<and> js ''/a'' \<notin> set (tl [js ''/a'', js ''/c''])
   \<and> distinct [js ''/a'', js ''/c'']"
proof -
  let ?found = "Holds [js ''/a'', js ''/b'']"
  let ?exists = "\<lambda>path. path \<noteq> js ''/b''"
  let ?before = "[Call (js ''/x''), LoadResumes, LoadResumes]"
  let ?rest = "[Call (js ''/c''), LoadResumes, Call (js ''/a'')]"
  have h1: "pendingLoad (run (newVaultManager ?found ?exists) ?before) = []"
    by (simp add: run_def newVaultManager_def loadVaultHistory_def resumeLoad_def addToHistory_def)
  have h2: "calls ?rest \<noteq> []" by simp
  have h3: "\<forall>h. ?found = Holds h \<longrightarrow> distinct h" by (simp add: js_simps)
  have v: "recentVaults (run (newVaultManager ?found ?exists) (?before @ ?rest))
             = [js ''/a'', js ''/c'']"
    by (simp add: run_def newVaultManager_def loadVaultHistory_def resumeLoad_def addToHistory_def
        js_simps)
  show ?thesis
    using addToHistory_after_load[OF h1 h2] h1 h3 unfolding v by (simp add: js_simps)
qed

section \<open>Sanitized file names\<close>

lemma replaceRuns_set: "set (replaceRuns P r s) \<subseteq> insert r {c \<in> set s. \<not> P c}"
proof (induction P r s rule: replaceRuns.induct)
  case (1 P r) show ?case by simp
next
  case (2 P r c cs)
  have "set (dropWhile P cs) \<subseteq> set cs" by (rule set_dropWhileD[THEN subsetI])
  with 2 show ?case by (auto split: if_splits)
qed

lemma replaceRuns_id: "\<forall>c \<in> set s. \<not> P c \<Longrightarrow> replaceRuns P r s = s"
  by (induction s) auto

lemma collapse_no_run: "\<not> hyphenRun (replaceRuns (\<lambda>c. c = hyphen) hyphen s)"
proof (induction "\<lambda>c::nat. c = hyphen" "hyphen" s rule: replaceRuns.induct)
  case 1 show ?case by simp
next
  case (2 c cs)
  show ?case
  proof (cases "c = hyphen")
    case True
    let ?d = "dropWhile (\<lambda>c. c = hyphen) cs"
    let ?r = "replaceRuns (\<lambda>c. c = hyphen) hyphen ?d"
    have ih: "\<not> hyphenRun ?r" using 2(1) True by simp
    have step: "replaceRuns (\<lambda>c. c = hyphen) hyphen (c # cs) = hyphen # ?r"
      using True by simp
    have "?r = [] \<or> hd ?r \<noteq> hyphen"
    proof (cases ?d)
      case Nil then show ?thesis by (simp del: dropWhile_eq_Nil_conv)
    next
      case (Cons d ds)
      then have "d \<noteq> hyphen" using hd_dropWhile[of "\<lambda>c. c = hyphen" cs] by auto
      then show ?thesis using Cons by (simp del: dropWhile_eq_Nil_conv)
    qed
    then have "\<not> hyphenRun (hyphen # ?r)" using ih by (cases ?r) auto
    then show ?thesis using step by simp
  next
    case False
    then have ih: "\<not> hyphenRun (replaceRuns (\<lambda>c. c = hyphen) hyphen cs)" using 2(2) by simp
    show ?thesis using False ih by (cases cs) auto
  qed
qed

lemma collapse_id: "\<not> hyphenRun s \<Longrightarrow> replaceRuns (\<lambda>c. c = hyphen) hyphen s = s"
proof (induction s rule: hyphenRun.induct)
  case (1 a b cs)
  then show ?case by auto
qed auto

lemma hyphenRun_tl: "hyphenRun (tl s) \<Longrightarrow> hyphenRun s"
  by (cases s; cases "tl s") auto

lemma hyphenRun_butlast: "hyphenRun (butlast s) \<Longrightarrow> hyphenRun s"
  by (induction s rule: hyphenRun.induct) (auto split: if_splits)

lemma no_run_hd_tl: "\<not> hyphenRun (hyphen # cs) \<Longrightarrow> cs \<noteq> [] \<Longrightarrow> hd cs \<noteq> hyphen"
  by (cases cs) auto

lemma no_run_last_butlast:
  "\<not> hyphenRun s \<Longrightarrow> last s = hyphen \<Longrightarrow> butlast s \<noteq> [] \<Longrightarrow> last (butlast s) \<noteq> hyphen"
  by (induction s rule: hyphenRun.induct) (auto split: if_splits)

lemma stripEdges_set: "set (stripEdges P s) \<subseteq> set s"
  by (auto simp: stripEdges_def Let_def split: list.splits if_splits dest: in_set_butlastD)

lemma stripEdges_unfold:
  "stripEdges P s =
     (if (case s of [] \<Rightarrow> [] | c # cs \<Rightarrow> if P c then cs else s) \<noteq> []
         \<and> P (last (case s of [] \<Rightarrow> [] | c # cs \<Rightarrow> if P c then cs else s))
      then butlast (case s of [] \<Rightarrow> [] | c # cs \<Rightarrow> if P c then cs else s)
      else (case s of [] \<Rightarrow> [] | c # cs \<Rightarrow> if P c then cs else s))"
  by (simp add: stripEdges_def Let_def)

lemma stripEdges_no_run: 
  assumes nr: "\<not> hyphenRun s"
  shows "\<not> hyphenRun (stripEdges (\<lambda>c. c = hyphen) s)"
proof -
  define t where "t = (case s of [] \<Rightarrow> [] | c # cs \<Rightarrow> if c = hyphen then cs else s)"
  have "t = s \<or> t = tl s" by (auto simp: t_def split: list.splits)
  then have "\<not> hyphenRun t" using nr hyphenRun_tl by auto
  then have nr': "\<not> hyphenRun (if t \<noteq> [] \<and> last t = hyphen then butlast t else t)"
    using hyphenRun_butlast by auto
  have eq: "stripEdges (\<lambda>c. c = hyphen) s = (if t \<noteq> [] \<and> last t = hyphen then butlast t else t)"
    unfolding t_def by (rule stripEdges_unfold)
  show ?thesis unfolding eq by (rule nr')
qed

lemma stripEdges_edges:
  assumes nr: "\<not> hyphenRun s" and ne: "stripEdges (\<lambda>c. c = hyphen) s \<noteq> []"
  shows "hd (stripEdges (\<lambda>c. c = hyphen) s) \<noteq> hyphen \<and> last (stripEdges (\<lambda>c. c = hyphen) s) \<noteq> hyphen"
proof -
  define t where "t = (case s of [] \<Rightarrow> [] | c # cs \<Rightarrow> if c = hyphen then cs else s)"
  have res: "stripEdges (\<lambda>c. c = hyphen) s = (if t \<noteq> [] \<and> last t = hyphen then butlast t else t)"
    unfolding t_def by (rule stripEdges_unfold)
  have t_cases: "t = s \<or> t = tl s" by (auto simp: t_def split: list.splits)
  then have nrt: "\<not> hyphenRun t" using nr hyphenRun_tl by auto
  have tne: "t \<noteq> []" using ne res by (auto split: if_splits)
  have hdt: "hd t \<noteq> hyphen"
  proof (cases s)
    case Nil then show ?thesis using tne by (simp add: t_def)
  next
    case (Cons c cs)
    show ?thesis
    proof (cases "c = hyphen")
      case True
      then have "t = cs" using Cons by (simp add: t_def)
      then show ?thesis using no_run_hd_tl[of cs] nr Cons True tne by simp
    next
      case False then show ?thesis using Cons by (simp add: t_def)
    qed
  qed
  show ?thesis
  proof (cases "last t = hyphen")
    case True
    then have r: "stripEdges (\<lambda>c. c = hyphen) s = butlast t" using res tne by simp
    then have bne: "butlast t \<noteq> []" using ne by simp
    have "hd (butlast t) = hd t" using bne by (cases t) auto
    moreover have "last (butlast t) \<noteq> hyphen" using no_run_last_butlast[OF nrt True bne] .
    ultimately show ?thesis using r hdt by simp
  next
    case False
    then show ?thesis using res hdt by simp
  qed
qed

lemma stripEdges_id:
  "s = [] \<or> (\<not> P (hd s) \<and> \<not> P (last s)) \<Longrightarrow> stripEdges P s = s"
  by (cases s) (auto simp: stripEdges_def Let_def)

lemma hyphen_plain: "\<not> isReserved hyphen" "\<not> isWhiteSpace hyphen"
  by (simp_all add: isReserved_def isWhiteSpace_def)

lemma sanitizeFilename_chars:
  assumes "c \<in> set (sanitizeFilename s)"
  shows "\<not> isReserved c \<and> \<not> isWhiteSpace c"
proof -
  let ?s1 = "map (\<lambda>c. if isReserved c then hyphen else c) s"
  let ?s2 = "replaceRuns isWhiteSpace hyphen ?s1"
  let ?s3 = "replaceRuns (\<lambda>c. c = hyphen) hyphen ?s2"
  have "c \<in> set ?s3" using assms stripEdges_set unfolding sanitizeFilename_def by blast
  then have "c = hyphen \<or> c \<in> set ?s2" using replaceRuns_set[of "\<lambda>c. c = hyphen" hyphen ?s2] by auto
  then have "c = hyphen \<or> (c \<in> set ?s1 \<and> \<not> isWhiteSpace c)"
    using replaceRuns_set[of isWhiteSpace hyphen ?s1] by auto
  then show ?thesis using hyphen_plain by (auto split: if_splits)
qed

lemma sanitizeFilename_fixed:
  assumes chars: "\<forall>c \<in> set t. \<not> isReserved c \<and> \<not> isWhiteSpace c"
    and nr: "\<not> hyphenRun t"
    and edges: "t = [] \<or> (hd t \<noteq> hyphen \<and> last t \<noteq> hyphen)"
  shows "sanitizeFilename t = t"
proof -
  have 1: "map (\<lambda>c. if isReserved c then hyphen else c) t = t"
    using chars by (simp add: map_idI)
  have 2: "replaceRuns isWhiteSpace hyphen t = t" using chars by (simp add: replaceRuns_id)
  have 3: "replaceRuns (\<lambda>c. c = hyphen) hyphen t = t" using nr by (rule collapse_id)
  show ?thesis unfolding sanitizeFilename_def 1 2 3 using edges by (intro stripEdges_id) auto
qed

text \<open>
  Claim C7. \<open>sanitizeFilename\<close> is idempotent, and its output contains none of the characters
  \<open>< > : " / \ | ? *\<close>, no white space, no run of two or more hyphens, and neither a leading
  nor a trailing hyphen.
\<close>

theorem sanitizeFilename_idempotent_clean:
  "sanitizeFilename (sanitizeFilename s) = sanitizeFilename s
   \<and> (\<forall>c \<in> set (sanitizeFilename s). \<not> isReserved c \<and> \<not> isWhiteSpace c)
   \<and> \<not> hyphenRun (sanitizeFilename s)
   \<and> (sanitizeFilename s \<noteq> [] \<longrightarrow>
        hd (sanitizeFilename s) \<noteq> hyphen \<and> last (sanitizeFilename s) \<noteq> hyphen)"
proof -
  let ?s3 = "replaceRuns (\<lambda>c. c = hyphen) hyphen
         (replaceRuns isWhiteSpace hyphen (map (\<lambda>c. if isReserved c then hyphen else c) s))"
  have out: "sanitizeFilename s = stripEdges (\<lambda>c. c = hyphen) ?s3" by (simp add: sanitizeFilename_def)
  have nr3: "\<not> hyphenRun ?s3" by (rule collapse_no_run)
  have chars: "\<forall>c \<in> set (sanitizeFilename s). \<not> isReserved c \<and> \<not> isWhiteSpace c"
    using sanitizeFilename_chars by blast
  have nr: "\<not> hyphenRun (sanitizeFilename s)"
    unfolding out using nr3 by (rule stripEdges_no_run)
  have edges: "sanitizeFilename s \<noteq> [] \<longrightarrow>
        hd (sanitizeFilename s) \<noteq> hyphen \<and> last (sanitizeFilename s) \<noteq> hyphen"
    unfolding out using stripEdges_edges[OF nr3] by blast
  have "sanitizeFilename (sanitizeFilename s) = sanitizeFilename s"
    using chars nr edges by (intro sanitizeFilename_fixed) auto
  then show ?thesis using chars nr edges by blast
qed

theorem sanitizeFilename_idempotent_clean_witness:
  "sanitizeFilename (js ''  My File: a|b -- c?  '') = js ''My-File-a-b-c''
   \<and> sanitizeFilename (js ''My-File-a-b-c'') = js ''My-File-a-b-c''
   \<and> list_all (\<lambda>c. \<not> isReserved c \<and> \<not> isWhiteSpace c) (js ''My-File-a-b-c'')
   \<and> \<not> hyphenRun (js ''My-File-a-b-c'')
   \<and> js ''My-File-a-b-c'' \<noteq> []
   \<and> hd (js ''My-File-a-b-c'') \<noteq> hyphen \<and> last (js ''My-File-a-b-c'') \<noteq> hyphen"
proof -
  have v: "sanitizeFilename (js ''  My File: a|b -- c?  '') = js ''My-File-a-b-c''"
    by (simp add: sanitizeFilename_def js_def stripEdges_def isReserved_def isWhiteSpace_def)
  have ne: "js ''My-File-a-b-c'' \<noteq> []" by (simp add: js_def)
  show ?thesis
    using sanitizeFilename_idempotent_clean[of "js ''  My File: a|b -- c?  ''"] ne
    unfolding v list_all_iff by blast
qed

section \<open>Standard property names\<close>

lemma toLowerCase_idem: "toLowerCase (toLowerCase s) = toLowerCase s"
  by (induction s) (auto simp: toLowerCase_def)

lemma standard_names_lower:
  "n \<in> set (map fst standardProperties) \<Longrightarrow> toLowerCase n = n"
  by (auto simp: standardProperties_def js_def toLowerCase_def)

lemma findStandardProperty_standard:
  "n \<in> set (map fst standardProperties) \<Longrightarrow> findStandardProperty n = n"
  by (simp add: findStandardProperty_def standard_names_lower del: set_map)

lemma find_alias_standard:
  "find (\<lambda>(standardName, ty, aliases). l \<in> set aliases) standardProperties = Some (n, cfg)
   \<Longrightarrow> n \<in> set (map fst standardProperties)"
  by (auto simp: find_Some_iff in_set_conv_nth intro!: image_eqI[where x="(n, cfg)"])

lemma find_similar_standard:
  "find P (map fst standardProperties) = Some n \<Longrightarrow> n \<in> set (map fst standardProperties)"
  by (metis find_Some_iff nth_mem)

lemma findStandardProperty_cases:
  "findStandardProperty k \<in> set (map fst standardProperties) \<or> findStandardProperty k = k"
  unfolding findStandardProperty_def Let_def
  using find_alias_standard find_similar_standard
  by (auto split: option.splits simp del: set_map)

lemma findStandardProperty_idem: "findStandardProperty (findStandardProperty k) = findStandardProperty k"
  using findStandardProperty_cases[of k] findStandardProperty_standard by auto

lemma standardize_fold_fst:
  "fst (foldl standardizeStep (obj, ms) fm)
     = foldl (\<lambda>obj (k, v). setProp obj (findStandardProperty k) v) obj fm"
  by (induction fm arbitrary: obj ms) (auto simp: standardizeStep_def Let_def)

lemma standardize_keys:
  "set (map fst (foldl (\<lambda>obj (k, v). setProp obj (findStandardProperty k) v) obj fm))
     \<subseteq> set (map fst obj) \<union> findStandardProperty ` set (map fst fm)"
proof (induction fm arbitrary: obj)
  case Nil
  then show ?case by simp
next
  case (Cons e fm)
  obtain k v where e: "e = (k, v)" by (cases e)
  have "set (map fst (setProp obj (findStandardProperty k) v))
          \<subseteq> insert (findStandardProperty k) (set (map fst obj))"
    by (auto simp: keys_setProp simp del: set_map)
  with Cons.IH[of "setProp obj (findStandardProperty k) v"] show ?case
    unfolding e by auto
qed

lemma standardize_distinct:
  "distinct (map fst obj) \<Longrightarrow>
   distinct (map fst (foldl (\<lambda>obj (k, v). setProp obj (findStandardProperty k) v) obj fm))"
  by (induction fm arbitrary: obj) (auto simp: distinct_setProp)

lemma standardize_fixed:
  assumes "distinct (map fst fm)" "\<forall>k \<in> set (map fst fm). findStandardProperty k = k"
    "set (map fst fm) \<inter> set (map fst obj) = {}"
  shows "foldl standardizeStep (obj, ms) fm = (obj @ fm, ms)"
  using assms
proof (induction fm arbitrary: obj)
  case Nil
  then show ?case by simp
next
  case (Cons e fm)
  obtain k v where e: "e = (k, v)" by (cases e)
  have fx: "findStandardProperty k = k" using Cons.prems(2) e by simp
  have new: "k \<notin> set (map fst obj)" using Cons.prems(3) e by auto
  have step: "standardizeStep (obj, ms) e = (obj @ [(k, v)], ms)"
    using fx new by (simp add: standardizeStep_def e setProp_new del: set_map)
  have "foldl standardizeStep (obj @ [(k, v)], ms) fm = ((obj @ [(k, v)]) @ fm, ms)"
    using Cons.prems e by (intro Cons.IH) auto
  then show ?case using step e by simp
qed

text \<open>
  Claim C8. \<open>standardizePropertyNames\<close> is idempotent: applied to the frontmatter it produced,
  it returns the same frontmatter (and renames nothing), because every key of its output is a
  fixed point of \<open>findStandardProperty\<close>.
\<close>

theorem standardizePropertyNames_idempotent:
  "standardizePropertyNames (fst (standardizePropertyNames fm))
     = (fst (standardizePropertyNames fm), [])
   \<and> (\<forall>k \<in> set (map fst (fst (standardizePropertyNames fm))). findStandardProperty k = k)"
proof -
  let ?out = "fst (standardizePropertyNames fm)"
  have out: "?out = foldl (\<lambda>obj (k, v). setProp obj (findStandardProperty k) v) [] fm"
    by (simp add: standardizePropertyNames_def standardize_fold_fst)
  have keys: "set (map fst ?out) \<subseteq> findStandardProperty ` set (map fst fm)"
    unfolding out using standardize_keys[of "[]" fm] by simp
  have fixed: "\<forall>k \<in> set (map fst ?out). findStandardProperty k = k"
    using keys findStandardProperty_idem by blast
  have dist: "distinct (map fst ?out)"
    unfolding out by (rule standardize_distinct) simp
  have "standardizePropertyNames ?out = ([] @ ?out, [])"
    unfolding standardizePropertyNames_def[of ?out]
    using dist fixed by (intro standardize_fixed) auto
  then show ?thesis using fixed by simp
qed

lemma findStandardProperty_examples:
  "findStandardProperty (js ''date-created'') = js ''created''"
  "findStandardProperty (js ''Tag'') = js ''tags''"
  "findStandardProperty (js ''my key'') = js ''my key''"
  by (simp_all add: findStandardProperty_def standardProperties_def toLowerCase_def js_def
      arePropertiesSimilar_def normalize_def isWhiteSpace_def)

theorem standardizePropertyNames_idempotent_witness:
  "standardizePropertyNames [(js ''date-created'', JStr (js ''2024-03-01'') :: nat jsvalue),
                             (js ''Tag'', JArr []), (js ''my key'', JNull)]
     = ([(js ''created'', JStr (js ''2024-03-01'')), (js ''tags'', JArr []), (js ''my key'', JNull)],
        [(js ''date-created'', js ''created''), (js ''Tag'', js ''tags'')])
   \<and> standardizePropertyNames
         [(js ''created'', JStr (js ''2024-03-01'') :: nat jsvalue), (js ''tags'', JArr []),
          (js ''my key'', JNull)]
     = ([(js ''created'', JStr (js ''2024-03-01'')), (js ''tags'', JArr []), (js ''my key'', JNull)], [])
   \<and> list_all (\<lambda>k. findStandardProperty k = k) [js ''created'', js ''tags'', js ''my key'']"
proof -
  let ?fm = "[(js ''date-created'', JStr (js ''2024-03-01'') :: nat jsvalue),
              (js ''Tag'', JArr []), (js ''my key'', JNull)]"
  have ne: "js ''created'' \<noteq> js ''date-created''" "js ''tags'' \<noteq> js ''Tag''"
    "js ''tags'' \<noteq> js ''created''" "js ''my key'' \<noteq> js ''created''"
    "js ''my key'' \<noteq> js ''tags''"
    by (simp_all add: js_def)
  have v: "standardizePropertyNames ?fm
     = ([(js ''created'', JStr (js ''2024-03-01'')), (js ''tags'', JArr []), (js ''my key'', JNull)],
        [(js ''date-created'', js ''created''), (js ''Tag'', js ''tags'')])"
    using ne
    by (simp add: standardizePropertyNames_def standardizeStep_def findStandardProperty_examples
        Let_def)
  have "standardizePropertyNames (fst (standardizePropertyNames ?fm))
          = (fst (standardizePropertyNames ?fm), [])
        \<and> (\<forall>k \<in> set (map fst (fst (standardizePropertyNames ?fm))). findStandardProperty k = k)"
    by (rule standardizePropertyNames_idempotent)
  then show ?thesis unfolding v list_all_iff by simp
qed

section \<open>Vault detection\<close>

lemma wildcardMatch_literal: "42 \<notin> set lit \<Longrightarrow> wildcardMatch lit s \<longleftrightarrow> s = lit"
  by (induction lit s rule: wildcardMatch.induct) auto

lemma wildcardMatch_star_suffix:
  "42 \<notin> set lit \<Longrightarrow> wildcardMatch (42 # lit) s \<Longrightarrow> endsWith s lit"
proof (induction s)
  case Nil
  then show ?case by (simp add: wildcardMatch_literal endsWith_iff)
next
  case (Cons c cs)
  from Cons.prems(2) have "wildcardMatch lit (c # cs) \<or> wildcardMatch (42 # lit) cs" by simp
  then show ?case
  proof
    assume "wildcardMatch lit (c # cs)"
    then have "c # cs = lit" using Cons.prems(1) by (simp add: wildcardMatch_literal)
    then show ?thesis by (auto simp: endsWith_iff)
  next
    assume "wildcardMatch (42 # lit) cs"
    then have "endsWith cs lit" using Cons by simp
    then obtain pre where "cs = pre @ lit" by (auto simp: endsWith_iff)
    then have "c # cs = (c # pre) @ lit" by simp
    then show ?thesis unfolding endsWith_iff by blast
  qed
qed

lemma globMatch_md_last:
  "globMatch dot [js ''**'', js ''*.md''] rel \<Longrightarrow> rel \<noteq> [] \<and> endsWith (last rel) (js ''.md'')"
proof (induction rel)
  case Nil
  then show ?case by (simp add: js_simps)
next
  case (Cons s ss)
  have star: "js ''*.md'' = 42 # js ''.md''" by (simp add: js_simps)
  have nostar: "42 \<notin> set (js ''.md'')" by (simp add: js_simps)
  have ne: "js ''*.md'' \<noteq> js ''**''" by (simp add: js_simps)
  from Cons.prems
  have "globMatch dot [js ''*.md''] (s # ss) \<or> globMatch dot [js ''**'', js ''*.md''] ss"
    by auto
  then show ?case
  proof
    assume "globMatch dot [js ''*.md''] (s # ss)"
    then have "wildcardMatch (js ''*.md'') s \<and> ss = []"
      using ne by (simp add: segmentMatch_def)
    then show ?thesis using wildcardMatch_star_suffix[OF nostar, of s] star by simp
  next
    assume "globMatch dot [js ''**'', js ''*.md''] ss"
    then show ?thesis using Cons.IH by simp
  qed
qed

lemma joinWith_last: "xs \<noteq> [] \<Longrightarrow> \<exists>pre. joinWith sep xs = pre @ last xs"
proof (induction sep xs rule: joinWith.induct)
  case (3 sep x y ys)
  then obtain pre where "joinWith sep (y # ys) = pre @ last (y # ys)" by auto
  then have "joinWith sep (x # y # ys) = (x @ sep @ pre) @ last (x # y # ys)" by simp
  then show ?case by blast
qed auto

lemma diskGlob_md_suffix:
  assumes "f \<in> set (diskGlob d (js ''**/*.md'') opts)"
  shows "endsWith f (js ''.md'')"
proof -
  have pat: "splitOn 47 (js ''**/*.md'') = [js ''**'', js ''*.md'']"
    by (simp add: js_simps)
  from assms obtain rel where f: "f = joinWith (js ''/'') rel"
    and m: "globMatch False [js ''**'', js ''*.md''] rel"
    unfolding diskGlob_def pat by auto
  from globMatch_md_last[OF m] have ne: "rel \<noteq> []" and e: "endsWith (last rel) (js ''.md'')"
    by simp_all
  from e obtain p1 where p1: "last rel = p1 @ js ''.md''" by (auto simp: endsWith_iff)
  from joinWith_last[OF ne, of "js ''/''"] obtain p2 where "f = p2 @ last rel"
    using f by auto
  then have "f = (p2 @ p1) @ js ''.md''" using p1 by simp
  then show ?thesis unfolding endsWith_iff by blast
qed

text \<open>
  Claim C3. \<open>analyzeDirectory\<close> never raises. When the path does not exist, is not a directory or
  cannot be reached, the descriptor has \<open>isVault\<close> false, \<open>hasObsidianFolder\<close> false and
  \<open>markdownFiles\<close> 0; in every case \<open>isVault\<close> holds exactly when \<open>hasObsidianFolder\<close> holds or
  \<open>markdownFiles\<close> is positive.
\<close>

theorem analyzeDirectory_fails_soft:
  "\<exists>v. analyzeDirectory F dirPath = Inr v
       \<and> ((\<forall>s. stat F dirPath = Inr s \<longrightarrow> \<not> isDirectory s)
            \<longrightarrow> \<not> isVault v \<and> \<not> hasObsidianFolder v \<and> markdownFiles v = 0)
       \<and> (isVault v \<longleftrightarrow> hasObsidianFolder v \<or> markdownFiles v > 0)"
proof (cases "stat F dirPath")
  case (Inl e)
  then show ?thesis by (simp add: analyzeDirectory_def analyzeTry_def)
next
  case (Inr s)
  then show ?thesis by (cases "isDirectory s") (simp_all add: analyzeDirectory_def analyzeTry_def Let_def)
qed

lemmas disk_eval =
  analyzeDirectory_def analyzeTry_def diskFs_def diskGlob_def below_def segments_def
  exampleDisk_def js_simps segmentMatch_def hidden_def startsWith_def Let_def

theorem analyzeDirectory_fails_soft_witness:
  "stat (diskFs exampleDisk) (js ''/missing'') = Inl ENOENT
   \<and> analyzeDirectory (diskFs exampleDisk) (js ''/missing'')
       = Inr \<lparr>name = js ''missing'', path = js ''/missing'', isVault = False,
              hasObsidianFolder = False, markdownFiles = 0, totalFiles = 0\<rparr>
   \<and> analyzeDirectory (diskFs exampleDisk) (js ''/vault'')
       = Inr \<lparr>name = js ''vault'', path = js ''/vault'', isVault = True,
              hasObsidianFolder = True, markdownFiles = 0, totalFiles = 0\<rparr>"
proof -
  let ?F = "diskFs exampleDisk"
  have st: "stat ?F (js ''/missing'') = Inl ENOENT" by (simp add: disk_eval)
  from analyzeDirectory_fails_soft[of ?F "js ''/missing''"]
  obtain v where v: "analyzeDirectory ?F (js ''/missing'') = Inr v"
    and soft: "\<not> isVault v \<and> \<not> hasObsidianFolder v \<and> markdownFiles v = 0"
    using st by auto
  have nm: "name v = js ''missing'' \<and> path v = js ''/missing'' \<and> totalFiles v = 0"
    using v by (auto simp: disk_eval)
  have 1: "analyzeDirectory ?F (js ''/missing'')
       = Inr \<lparr>name = js ''missing'', path = js ''/missing'', isVault = False,
              hasObsidianFolder = False, markdownFiles = 0, totalFiles = 0\<rparr>"
    unfolding v using soft nm by (cases v) simp
  have 2: "analyzeDirectory ?F (js ''/vault'')
       = Inr \<lparr>name = js ''vault'', path = js ''/vault'', isVault = True,
              hasObsidianFolder = True, markdownFiles = 0, totalFiles = 0\<rparr>"
    by (simp add: disk_eval)
  show ?thesis using st 1 2 by simp
qed

text \<open>
  Claim C2, as the specification states it, fails: \<open>/notes\<close> holds \<open>note.markdown\<close> and
  \<open>guide.mkd\<close>, and \<open>analyzeDirectory\<close> reports no vault and no markdown file.
\<close>

theorem analyzeDirectory_extensions_counterexample:
  "map_of exampleDisk [js ''notes'', js ''note.markdown''] = Some RegularFile
   \<and> analyzeDirectory (diskFs exampleDisk) (js ''/notes'')
       = Inr \<lparr>name = js ''notes'', path = js ''/notes'', isVault = False,
              hasObsidianFolder = False, markdownFiles = 0, totalFiles = 0\<rparr>"
  by (simp add: disk_eval)

text \<open>
  Claim C2, amended. For every directory in which the pattern \<open>**/*.md\<close> (with the subtrees
  \<open>node_modules\<close>, \<open>.git\<close> and \<open>.obsidian\<close> of the directory ignored) finds at least one path,
  \<open>analyzeDirectory\<close> reports \<open>isVault\<close> true, and \<open>markdownFiles\<close> is the number of paths the
  pattern finds. On a disk every path it finds ends in \<open>.md\<close>: a file with the extension
  \<open>.markdown\<close>, \<open>.mdown\<close> or \<open>.mkd\<close> is not counted.
\<close>

theorem analyzeDirectory_counts_md:
  assumes "stat F dirPath = Inr s" and "isDirectory s"
  shows "\<exists>v. analyzeDirectory F dirPath = Inr v
           \<and> markdownFiles v
               = length (glob F (js ''**/*.md'')
                           \<lparr>cwd = dirPath,
                            ignore = [js ''node_modules/**'', js ''.git/**'', js ''.obsidian/**'']\<rparr>)
           \<and> (markdownFiles v > 0 \<longrightarrow> isVault v)
           \<and> (\<forall>f \<in> set (diskGlob d (js ''**/*.md'') opts). endsWith f (js ''.md''))"
  using assms diskGlob_md_suffix
  by (simp add: analyzeDirectory_def analyzeTry_def Let_def)

theorem analyzeDirectory_counts_md_witness:
  "stat (diskFs exampleDisk) (js ''/docs'') = Inr \<lparr>isDirectory = True\<rparr>
   \<and> glob (diskFs exampleDisk) (js ''**/*.md'')
        \<lparr>cwd = js ''/docs'',
         ignore = [js ''node_modules/**'', js ''.git/**'', js ''.obsidian/**'']\<rparr>
       = [js ''Simple File.md'', js ''sub/Another File.md'']
   \<and> markdownFiles (projr (analyzeDirectory (diskFs exampleDisk) (js ''/docs''))) = 2
   \<and> isVault (projr (analyzeDirectory (diskFs exampleDisk) (js ''/docs'')))
   \<and> endsWith (js ''Simple File.md'') (js ''.md'')
   \<and> endsWith (js ''sub/Another File.md'') (js ''.md'')"
proof -
  let ?F = "diskFs exampleDisk"
  let ?opts = "\<lparr>cwd = js ''/docs'',
         ignore = [js ''node_modules/**'', js ''.git/**'', js ''.obsidian/**'']\<rparr>"
  have st: "stat ?F (js ''/docs'') = Inr \<lparr>isDirectory = True\<rparr>" by (simp add: disk_eval)
  have g: "glob ?F (js ''**/*.md'') ?opts = [js ''Simple File.md'', js ''sub/Another File.md'']"
    by (simp add: disk_eval)
  have g': "diskGlob exampleDisk (js ''**/*.md'') ?opts
              = [js ''Simple File.md'', js ''sub/Another File.md'']"
    using g by (simp add: diskFs_def)
  from analyzeDirectory_counts_md[OF st, of exampleDisk ?opts]
  obtain v where v: "analyzeDirectory ?F (js ''/docs'') = Inr v"
    and n: "markdownFiles v = length (glob ?F (js ''**/*.md'') ?opts)"
    and iv: "markdownFiles v > 0 \<longrightarrow> isVault v"
    and e: "\<forall>f \<in> set (diskGlob exampleDisk (js ''**/*.md'') ?opts). endsWith f (js ''.md'')"
    by auto
  show ?thesis using st g v n iv e unfolding g' by simp
qed

section \<open>Move operations\<close>

text \<open>The errors that the loop collects, from the outcome of each operation.\<close>

lemma moveLoop_outcomes:
  "moveLoop st n errs ops
     = (fst (moveLoop st n errs ops),
        n + length (filter (\<lambda>out. out = None) (moveOutcomes st ops)),
        errs @ List.map_filter (\<lambda>(operation, out). map_option (Pair operation) out)
                 (zip ops (moveOutcomes st ops)))"
proof (induction ops arbitrary: st n errs)
  case Nil
  then show ?case by (simp add: List.map_filter_simps)
next
  case (Cons operation rest)
  show ?case
  proof (cases "moveFile st (opFrom operation) (opTo operation)")
    case (Inl e)
    then show ?thesis
      using Cons.IH[of st n "errs @ [(operation, e)]"] by (simp add: List.map_filter_simps)
  next
    case (Inr r)
    obtain st1 newPath where r: "r = (st1, newPath)" by (cases r)
    show ?thesis
      using Inr r Cons.IH[of st1 "n + 1" errs] by (simp add: List.map_filter_simps)
  qed
qed

lemma moveOutcomes_length: "length (moveOutcomes st ops) = length ops"
  by (induction ops arbitrary: st) (auto split: sum.splits)

lemma moveLoop_append:
  "moveLoop st n errs (ops1 @ ops2)
     = (case moveLoop st n errs ops1 of (st1, n1, errs1) \<Rightarrow> moveLoop st1 n1 errs1 ops2)"
  by (induction ops1 arbitrary: st n errs) (auto split: sum.splits)

lemma filter_None_Some_length:
  "length (filter (\<lambda>out. out = None) outs) + length (filter (\<lambda>out. out \<noteq> None) outs)
     = length outs"
  by (induction outs) auto

lemma map_filter_errors_length:
  "length ops = length outs \<Longrightarrow>
   length (List.map_filter (\<lambda>(operation, out). map_option (Pair operation) out) (zip ops outs))
     = length (filter (\<lambda>out. out \<noteq> None) outs)"
proof (induction ops arbitrary: outs)
  case Nil
  then show ?case by (simp add: List.map_filter_simps)
next
  case (Cons a ops)
  then obtain out rest where "outs = out # rest" by (cases outs) auto
  with Cons show ?case by (cases out) (auto simp: List.map_filter_simps)
qed

text \<open>
  Claim C4. When the operator confirms, the loop of \<open>executeMoveOperations\<close> attempts every one of
  the N operations in input order, each on the store its predecessors left, and never aborts: of
  the K operations whose move fails (as when the destination exists, which \<open>fs.move\<close> refuses
  to overwrite) each is collected with its error, in order, and the reported \<open>successCount\<close> is
  N - K.
\<close>

theorem executeMoveOperations_counts:
  "\<exists>st1 successCount errors.
      executeMoveOperations True st ops = (st1, Some (successCount, errors))
      \<and> length (moveOutcomes st ops) = length ops
      \<and> errors = List.map_filter (\<lambda>(operation, out). map_option (Pair operation) out)
                     (zip ops (moveOutcomes st ops))
      \<and> length errors = length (filter (\<lambda>out. out \<noteq> None) (moveOutcomes st ops))
      \<and> successCount = length ops - length errors
      \<and> successCount + length errors = length ops
      \<and> (st0 (opFrom op0) \<noteq> None \<and> st0 (opTo op0) \<noteq> None
           \<longrightarrow> moveFile st0 (opFrom op0) (opTo op0) = Inl DestExists)"
proof -
  let ?outs = "moveOutcomes st ops"
  let ?errs = "List.map_filter (\<lambda>(operation, out). map_option (Pair operation) out) (zip ops ?outs)"
  have loop: "moveLoop st 0 [] ops
     = (fst (moveLoop st 0 [] ops), length (filter (\<lambda>out. out = None) ?outs), ?errs)"
    using moveLoop_outcomes[of st 0 "[]" ops] by simp
  have len: "length ?outs = length ops" by (rule moveOutcomes_length)
  have k: "length ?errs = length (filter (\<lambda>out. out \<noteq> None) ?outs)"
    using len by (intro map_filter_errors_length) simp
  have sum: "length (filter (\<lambda>out. out = None) ?outs) + length ?errs = length ops"
    using filter_None_Some_length[of ?outs] k len by simp
  have ex: "executeMoveOperations True st ops
     = (fst (moveLoop st 0 [] ops), Some (length (filter (\<lambda>out. out = None) ?outs), ?errs))"
    unfolding executeMoveOperations_def by (subst loop) simp
  have dest: "st0 (opFrom op0) \<noteq> None \<and> st0 (opTo op0) \<noteq> None
           \<longrightarrow> moveFile st0 (opFrom op0) (opTo op0) = Inl DestExists"
    by (auto simp: moveFile_def move_def)
  show ?thesis using ex len k sum dest by auto
qed

theorem executeMoveOperations_counts_witness:
  "moveOutcomes exampleStore exampleOps = [None, Some DestExists, None]
   \<and> snd (executeMoveOperations True exampleStore exampleOps)
       = Some (2, [(\<lparr>opFrom = js ''b.md'', opTo = js ''out/x.md'', opFolder = js ''out''\<rparr>,
                    DestExists)])
   \<and> moveFile (exampleStore(js ''out/x.md'' \<mapsto> js ''A'')) (js ''b.md'') (js ''out/x.md'')
       = Inl DestExists"
proof -
  let ?op2 = "\<lparr>opFrom = js ''b.md'', opTo = js ''out/x.md'', opFolder = js ''out''\<rparr>"
  let ?st0 = "exampleStore(js ''out/x.md'' \<mapsto> js ''A'')"
  have outs: "moveOutcomes exampleStore exampleOps = [None, Some DestExists, None]"
    by (simp add: exampleStore_def exampleOps_def moveFile_def move_def js_simps)
  have pre: "?st0 (opFrom ?op2) \<noteq> None \<and> ?st0 (opTo ?op2) \<noteq> None"
    by (simp add: exampleStore_def js_simps)
  from executeMoveOperations_counts[of exampleStore exampleOps ?st0 ?op2]
  obtain st1 successCount errors where
    ex: "executeMoveOperations True exampleStore exampleOps = (st1, Some (successCount, errors))"
    and errs: "errors = List.map_filter (\<lambda>(operation, out). map_option (Pair operation) out)
                     (zip exampleOps (moveOutcomes exampleStore exampleOps))"
    and n: "successCount = length exampleOps - length errors"
    and d: "moveFile ?st0 (opFrom ?op2) (opTo ?op2) = Inl DestExists"
    using pre by blast
  have e: "errors = [(?op2, DestExists)]"
    unfolding errs outs by (simp add: exampleOps_def List.map_filter_simps)
  have "successCount = 2" using n e by (simp add: exampleOps_def)
  then show ?thesis using outs ex e d by simp
qed

section \<open>Frontmatter updates\<close>

lemma updateFileFrontmatter_existing:
  assumes "st filePath = Some current"
  shows "updateFileFrontmatter H st now filePath newFrontmatter
           = Inr ((st(filePath @ js ''.backup.'' @ now \<mapsto> current))
                    (filePath \<mapsto>
                       stringifyMarkdown H
                         (spread (frontmatter (parseMarkdown H current)) newFrontmatter)
                         (content (parseMarkdown H current))),
                  filePath @ js ''.backup.'' @ now)"
  using assms
  by (simp add: updateFileFrontmatter_def readFile_def updateFile_def copy_def writeFile_def
      Let_def)

lemma flagNote_date:
  "dateToString grayMatterHost
     \<lparr>utcYear = 2024, utcMonth = 3, utcDay = 1, utcHours = 0, utcMinutes = 0, utcSeconds = 0,
      utcMillis = 0\<rparr>
     = js ''Fri Mar 01 2024 00:00:00 GMT+0000 (Coordinated Universal Time)''"
proof -
  have h: "dateToString grayMatterHost = utcToString"
    by (simp add: grayMatterHost_def exampleHost_def)
  have w: "weekDay \<lparr>utcYear = 2024, utcMonth = 3, utcDay = 1, utcHours = 0, utcMinutes = 0,
                     utcSeconds = 0, utcMillis = 0\<rparr> = 5"
    by (simp add: weekDay_def)
  show ?thesis
    unfolding h utcToString_def w by (simp add: pad_numerals js_simps)
qed

lemma flagNote_gray:
  "stringifyMarkdown grayMatterHost
     (spread (frontmatter (parseMarkdown grayMatterHost flagNote)) titleUpdate)
     (content (parseMarkdown grayMatterHost flagNote))
   = js ''---'' @ [LF] @ js ''flag: true'' @ [LF]
     @ js ''created: Fri Mar 01 2024 00:00:00 GMT+0000 (Coordinated Universal Time)'' @ [LF]
     @ js ''title: New'' @ [LF] @ js ''---'' @ [LF, LF] @ js ''Body text''"
proof -
  have m: "matter grayMatterHost flagNote
             = Some ([(js ''flag'', JStr (js ''true'')),
                      (js ''created'',
                       JDate (ValidDate \<lparr>utcYear = 2024, utcMonth = 3, utcDay = 1, utcHours = 0,
                                          utcMinutes = 0, utcSeconds = 0, utcMillis = 0\<rparr>)),
                      (js ''title'', JStr (js ''Old''))],
                     js ''Body text'',
                     [LF] @ js ''flag: '' @ [dquote] @ js ''true'' @ [dquote] @ [LF]
                     @ js ''created: 2024-03-01'' @ [LF] @ js ''title: Old'')"
    by (simp add: grayMatterHost_def)
  have p: "parseMarkdown grayMatterHost flagNote
             = \<lparr>frontmatter = [(js ''flag'', JStr (js ''true'')),
                      (js ''created'',
                       JDate (ValidDate \<lparr>utcYear = 2024, utcMonth = 3, utcDay = 1, utcHours = 0,
                                          utcMinutes = 0, utcSeconds = 0, utcMillis = 0\<rparr>)),
                      (js ''title'', JStr (js ''Old''))],
                content = js ''Body text'',
                frontmatterRaw = Some ([LF] @ js ''flag: '' @ [dquote] @ js ''true'' @ [dquote] @ [LF]
                     @ js ''created: 2024-03-01'' @ [LF] @ js ''title: Old'')\<rparr>"
    unfolding parseMarkdown_def m by simp
  have s: "spread (frontmatter (parseMarkdown grayMatterHost flagNote)) titleUpdate
             = [(js ''flag'', JStr (js ''true'')),
                      (js ''created'',
                       JDate (ValidDate \<lparr>utcYear = 2024, utcMonth = 3, utcDay = 1, utcHours = 0,
                                          utcMinutes = 0, utcSeconds = 0, utcMillis = 0\<rparr>)),
                      (js ''title'', JStr (js ''New''))]"
    unfolding p by (simp add: spread_def titleUpdate_def js_simps)
  have c: "content (parseMarkdown grayMatterHost flagNote) = js ''Body text''"
    unfolding p by simp
  show ?thesis
    unfolding s c
    by (simp add: stringifyMarkdown_def stringifyYaml_def flagNote_date[simplified] js_simps)
qed

lemma flagNote_match:
  "matchFrontmatter flagNote
     = Some (js ''flag: '' @ [dquote] @ js ''true'' @ [dquote] @ [LF]
             @ js ''created: 2024-03-01'' @ [LF] @ js ''title: Old'', js ''Body text'')"
  by (simp add: flagNote_def matchFrontmatter_def wsNewlineEnds_def matchClose_def string_eval)

lemma exampleHost_NaN:
  "isNaN exampleHost (Number exampleHost (js ''Old''))"
  "isNaN exampleHost (Number exampleHost (js ''New''))"
  "isNaN exampleHost (Number exampleHost (js ''2024-03-01''))"
  by (simp_all add: exampleHost_def isDigit_def js_simps)

lemma flagNote_yaml:
  "parseYamlLike exampleHost (js ''flag: '' @ [dquote] @ js ''true'' @ [dquote] @ [LF]
             @ js ''created: 2024-03-01'' @ [LF] @ js ''title: Old'')
     = [(js ''flag'', JStr (js ''true'')), (js ''created'', JStr (js ''2024-03-01'')),
        (js ''title'', JStr (js ''Old''))]"
  using exampleHost_NaN
  by (simp add: parseYamlLike_def parseYamlLine_def matchesIsoDate_def isDigit_def string_eval)

lemma flagNote_parsed:
  "parseMarkdown exampleHost flagNote
     = \<lparr>frontmatter = [(js ''flag'', JStr (js ''true'')), (js ''created'', JStr (js ''2024-03-01'')),
                       (js ''title'', JStr (js ''Old''))],
        content = js ''Body text'',
        frontmatterRaw = Some (js ''flag: '' @ [dquote] @ js ''true'' @ [dquote] @ [LF]
             @ js ''created: 2024-03-01'' @ [LF] @ js ''title: Old'')\<rparr>"
proof -
  have "matter exampleHost flagNote = None" by (simp add: exampleHost_def)
  then show ?thesis
    using flagNote_yaml
    by (simp add: parseMarkdown_def manualParse_def flagNote_match)
qed

lemma flagNote_fallback:
  "stringifyMarkdown exampleHost
     (spread (frontmatter (parseMarkdown exampleHost flagNote)) titleUpdate)
     (content (parseMarkdown exampleHost flagNote))
   = js ''---'' @ [LF] @ js ''flag: true'' @ [LF] @ js ''created: 2024-03-01'' @ [LF]
     @ js ''title: New'' @ [LF] @ js ''---'' @ [LF, LF] @ js ''Body text''"
proof -
  have s: "spread (frontmatter (parseMarkdown exampleHost flagNote)) titleUpdate
             = [(js ''flag'', JStr (js ''true'')), (js ''created'', JStr (js ''2024-03-01'')),
                (js ''title'', JStr (js ''New''))]"
    unfolding flagNote_parsed by (simp add: spread_def titleUpdate_def js_simps)
  have c: "content (parseMarkdown exampleHost flagNote) = js ''Body text''"
    unfolding flagNote_parsed by simp
  show ?thesis
    unfolding s c by (simp add: stringifyMarkdown_def stringifyYaml_def js_simps)
qed

lemma flagNote_written_match:
  "matchFrontmatter (js ''---'' @ [LF] @ js ''flag: true'' @ [LF] @ js ''created: 2024-03-01'' @ [LF]
     @ js ''title: New'' @ [LF] @ js ''---'' @ [LF, LF] @ js ''Body text'')
     = Some (js ''flag: true'' @ [LF] @ js ''created: 2024-03-01'' @ [LF] @ js ''title: New'',
             js ''Body text'')"
  by (simp add: matchFrontmatter_def wsNewlineEnds_def matchClose_def string_eval)

lemma flagNote_written_yaml:
  "parseYamlLike exampleHost
     (js ''flag: true'' @ [LF] @ js ''created: 2024-03-01'' @ [LF] @ js ''title: New'')
     = [(js ''flag'', JBool True), (js ''created'', JStr (js ''2024-03-01'')),
        (js ''title'', JStr (js ''New''))]"
  using exampleHost_NaN
  by (simp add: parseYamlLike_def parseYamlLine_def matchesIsoDate_def isDigit_def string_eval)

lemma flagNote_written_parsed:
  "frontmatter (parseMarkdown exampleHost
     (js ''---'' @ [LF] @ js ''flag: true'' @ [LF] @ js ''created: 2024-03-01'' @ [LF]
      @ js ''title: New'' @ [LF] @ js ''---'' @ [LF, LF] @ js ''Body text''))
     = [(js ''flag'', JBool True), (js ''created'', JStr (js ''2024-03-01'')),
        (js ''title'', JStr (js ''New''))]"
proof -
  have "matter exampleHost
     (js ''---'' @ [LF] @ js ''flag: true'' @ [LF] @ js ''created: 2024-03-01'' @ [LF]
      @ js ''title: New'' @ [LF] @ js ''---'' @ [LF, LF] @ js ''Body text'') = None"
    by (simp add: exampleHost_def)
  then show ?thesis
    unfolding parseMarkdown_def manualParse_def flagNote_written_match
    using flagNote_written_yaml by simp
qed

text \<open>
  Claim C5 fails on the code. \<open>updateFileFrontmatter\<close> reads the file, merges the supplied map
  into the parsed frontmatter, the supplied keys winning, and writes the body it parsed; but a
  key that the update does not name does not keep its value on disk, because the merged
  frontmatter goes through \<open>stringifyYamlValue\<close>. In the note below the update names \<open>title\<close>
  only. The string \<open>flag: "true"\<close> is written back as \<open>flag: true\<close>, which reads as the boolean
  (the defect of claim C1), and with gray-matter at work the timestamp \<open>created: 2024-03-01\<close> is
  written back as \<open>String\<close> of the \<open>Date\<close>.
\<close>

theorem updateFileFrontmatter_rewrites_untouched_keys:
  "(case updateFileFrontmatter grayMatterHost [js ''note.md'' \<mapsto> flagNote]
           (js ''1700000000000'') (js ''note.md'') titleUpdate of
      Inl e \<Rightarrow> None
    | Inr (st1, backupPath) \<Rightarrow> st1 (js ''note.md''))
     = Some (js ''---'' @ [LF] @ js ''flag: true'' @ [LF]
             @ js ''created: Fri Mar 01 2024 00:00:00 GMT+0000 (Coordinated Universal Time)'' @ [LF]
             @ js ''title: New'' @ [LF] @ js ''---'' @ [LF, LF] @ js ''Body text'')
   \<and> (case updateFileFrontmatter exampleHost [js ''note.md'' \<mapsto> flagNote]
             (js ''1700000000000'') (js ''note.md'') titleUpdate of
        Inl e \<Rightarrow> None
      | Inr (st1, backupPath) \<Rightarrow> st1 (js ''note.md''))
       = Some (js ''---'' @ [LF] @ js ''flag: true'' @ [LF] @ js ''created: 2024-03-01'' @ [LF]
               @ js ''title: New'' @ [LF] @ js ''---'' @ [LF, LF] @ js ''Body text'')
   \<and> getProp (frontmatter (parseMarkdown exampleHost flagNote)) (js ''flag'')
       = Some (JStr (js ''true''))
   \<and> getProp (frontmatter (parseMarkdown exampleHost
                 (js ''---'' @ [LF] @ js ''flag: true'' @ [LF] @ js ''created: 2024-03-01'' @ [LF]
                  @ js ''title: New'' @ [LF] @ js ''---'' @ [LF, LF] @ js ''Body text'')))
        (js ''flag'')
       = Some (JBool True)"
proof -
  have st: "[js ''note.md'' \<mapsto> flagNote] (js ''note.md'') = Some flagNote" by simp
  note run = updateFileFrontmatter_existing[where st="[js ''note.md'' \<mapsto> flagNote]"
      and filePath="js ''note.md''" and current=flagNote, OF st]
  have 1: "(case updateFileFrontmatter grayMatterHost [js ''note.md'' \<mapsto> flagNote]
           (js ''1700000000000'') (js ''note.md'') titleUpdate of
      Inl e \<Rightarrow> None
    | Inr (st1, backupPath) \<Rightarrow> st1 (js ''note.md''))
     = Some (js ''---'' @ [LF] @ js ''flag: true'' @ [LF]
             @ js ''created: Fri Mar 01 2024 00:00:00 GMT+0000 (Coordinated Universal Time)'' @ [LF]
             @ js ''title: New'' @ [LF] @ js ''---'' @ [LF, LF] @ js ''Body text'')"
    unfolding run flagNote_gray by simp
  have 2: "(case updateFileFrontmatter exampleHost [js ''note.md'' \<mapsto> flagNote]
             (js ''1700000000000'') (js ''note.md'') titleUpdate of
        Inl e \<Rightarrow> None
      | Inr (st1, backupPath) \<Rightarrow> st1 (js ''note.md''))
       = Some (js ''---'' @ [LF] @ js ''flag: true'' @ [LF] @ js ''created: 2024-03-01'' @ [LF]
               @ js ''title: New'' @ [LF] @ js ''---'' @ [LF, LF] @ js ''Body text'')"
    unfolding run flagNote_fallback by simp
  have 3: "getProp (frontmatter (parseMarkdown exampleHost flagNote)) (js ''flag'')
       = Some (JStr (js ''true''))"
    unfolding flagNote_parsed by (simp add: getProp_def)
  have 4: "getProp (frontmatter (parseMarkdown exampleHost
                 (js ''---'' @ [LF] @ js ''flag: true'' @ [LF] @ js ''created: 2024-03-01'' @ [LF]
                  @ js ''title: New'' @ [LF] @ js ''---'' @ [LF, LF] @ js ''Body text'')))
        (js ''flag'')
       = Some (JBool True)"
    unfolding flagNote_written_parsed by (simp add: getProp_def)
  show ?thesis using 1 2 3 4 by (intro conjI)
qed

section \<open>Missing properties\<close>

lemma getProp_copy: "distinct (map fst fm) \<Longrightarrow> getProp (spread fm []) k = getProp fm k"
  using getProp_spread[of fm "[]" k] by (simp add: getProp_def)

lemma getProp_setProp:
  "getProp (setProp obj k v) k' = (if k' = k then Some v else getProp obj k')"
  by (simp add: getProp_def map_of_setProp)

lemma propTruthy_setProp_other:
  "k' \<noteq> k \<Longrightarrow> propTruthy H (setProp obj k v) k' = propTruthy H obj k'"
  by (simp add: propTruthy_def getProp_setProp)

lemma isoDay_valid: "\<exists>day. isoDay (ValidDate u) = Inr day"
  by (simp add: isoDay_def toISOString_def)

lemma property_names_differ:
  "js ''created'' \<noteq> js ''modified''" "js ''created'' \<noteq> js ''tags''"
  "js ''modified'' \<noteq> js ''tags''" "js ''modified'' \<noteq> js ''created''"
  "js ''tags'' \<noteq> js ''created''" "js ''tags'' \<noteq> js ''modified''"
  by (simp_all add: js_simps)

text \<open>What one date step does to the state (updated, additions).\<close>

lemma addDate_cases:
  assumes "stamp \<noteq> Some InvalidDate"
  shows "(propTruthy H u key \<or> stamp = None) \<and> addDate H key stamp (u, a) = Inr (u, a)
       \<or> (\<not> propTruthy H u key \<and>
           (\<exists>d day. stamp = Some d \<and> isoDay d = Inr day
              \<and> addDate H key stamp (u, a) = Inr (setProp u key (JStr day), a @ [(key, JStr day)])))"
proof (cases stamp)
  case None
  then show ?thesis by (simp add: addDate_def)
next
  case (Some d)
  then obtain x where d: "d = ValidDate x" using assms by (cases d) auto
  obtain day where day: "isoDay d = Inr day" using isoDay_valid d by blast
  show ?thesis using Some day by (simp add: addDate_def)
qed

lemma addTags_cases:
  "(propTruthy H u (js ''tags'') \<and> addTags H (u, a) = (u, a))
   \<or> (\<not> propTruthy H u (js ''tags'')
       \<and> addTags H (u, a) = (setProp u (js ''tags'') (JArr []), a @ [(js ''tags'', JArr [])]))"
  by (simp add: addTags_def)

lemma addDate_step:
  assumes "stamp \<noteq> Some InvalidDate"
  shows "\<exists>u' a'. addDate H key stamp (u, a) = Inr (u', a')
           \<and> (\<forall>k. k \<noteq> key \<longrightarrow> getProp u' k = getProp u k)
           \<and> (\<forall>k. k \<noteq> key \<longrightarrow> (k \<in> fst ` set a' \<longleftrightarrow> k \<in> fst ` set a))
           \<and> set a \<subseteq> set a'
           \<and> (propTruthy H u key \<or> stamp = None
                \<longrightarrow> getProp u' key = getProp u key
                    \<and> (key \<in> fst ` set a' \<longleftrightarrow> key \<in> fst ` set a))
           \<and> (\<not> propTruthy H u key
                \<longrightarrow> (\<forall>d. stamp = Some d
                       \<longrightarrow> (\<exists>day. isoDay d = Inr day \<and> getProp u' key = Some (JStr day)
                                  \<and> (key, JStr day) \<in> set a')))"
  using addDate_cases[OF assms, of H u key a]
  by (elim disjE conjE exE) (auto simp: getProp_setProp)

lemma addTags_step:
  "\<exists>u' a'. addTags H (u, a) = (u', a')
      \<and> (\<forall>k. k \<noteq> js ''tags'' \<longrightarrow> getProp u' k = getProp u k)
      \<and> (\<forall>k. k \<noteq> js ''tags'' \<longrightarrow> (k \<in> fst ` set a' \<longleftrightarrow> k \<in> fst ` set a))
      \<and> set a \<subseteq> set a'
      \<and> (propTruthy H u (js ''tags'')
           \<longrightarrow> getProp u' (js ''tags'') = getProp u (js ''tags'')
               \<and> (js ''tags'' \<in> fst ` set a' \<longleftrightarrow> js ''tags'' \<in> fst ` set a))
      \<and> (\<not> propTruthy H u (js ''tags'')
           \<longrightarrow> getProp u' (js ''tags'') = Some (JArr []) \<and> (js ''tags'', JArr []) \<in> set a')"
  using addTags_cases[of H u a]
  by (elim disjE conjE) (auto simp: getProp_setProp)

lemma propTruthy_cong: "getProp u k = getProp u' k \<Longrightarrow> propTruthy H u k = propTruthy H u' k"
  by (simp add: propTruthy_def)

lemma pad_digits: "set (pad n k) \<subseteq> {48..57}"
  by (induction n k rule: pad.induct) auto

lemma isoDay_format:
  assumes "0 \<le> utcYear u" "utcYear u \<le> 9999"
  shows "isoDay (ValidDate u)
           = Inr (pad 4 (nat (utcYear u)) @ js ''-'' @ pad 2 (utcMonth u) @ js ''-''
                  @ pad 2 (utcDay u))"
proof -
  let ?day = "pad 4 (nat (utcYear u)) @ js ''-'' @ pad 2 (utcMonth u) @ js ''-'' @ pad 2 (utcDay u)"
  let ?rest = "pad 2 (utcHours u) @ js '':'' @ pad 2 (utcMinutes u)
               @ js '':'' @ pad 2 (utcSeconds u) @ js ''.'' @ pad 3 (utcMillis u) @ js ''Z''"
  have iso: "toISOString (ValidDate u) = Inr (?day @ 84 # ?rest)"
    using assms by (simp add: toISOString_def js_simps)
  have "84 \<notin> set ?day"
    using pad_digits[of 4 "nat (utcYear u)"] pad_digits[of 2 "utcMonth u"]
      pad_digits[of 2 "utcDay u"]
    by (auto simp: js_simps)
  then have "hd (splitOn 84 (?day @ 84 # ?rest)) = ?day" by (rule splitOn_hd)
  then show ?thesis unfolding isoDay_def iso by simp
qed

text \<open>
  Claim C9, as the specification states it, fails: with \<open>tags\<close> present and holding the empty
  string, \<open>addMissingProperties\<close> replaces the value by an empty array and records the addition.
\<close>

theorem addMissingProperties_empty_tags_counterexample:
  "getProp [(js ''tags'', JStr [])] (js ''tags'') = Some (JStr [])
   \<and> addMissingProperties exampleHost [(js ''tags'', JStr [])] (js ''note.md'') None
       = Inr ([(js ''tags'', JArr [])], [(js ''tags'', JArr [])])"
  by (simp add: addMissingProperties_def addDate_def addTags_def propTruthy_def getProp_def
      spread_def)

text \<open>
  Claim C9, amended. \<open>addMissingProperties\<close> tests the value, not the presence of the key. When
  \<open>tags\<close> holds a truthy value (any array, a non-empty string, \<open>true\<close>, a number other than 0 and
  \<open>NaN\<close>, a \<open>Date\<close>, a nested object) the entry is left unchanged and no addition is recorded for
  it; when the key is absent or holds a falsy value, \<open>tags\<close> becomes the empty array and the
  addition is recorded. Likewise
  \<open>created\<close> and \<open>modified\<close> are set, and recorded, exactly when the file stats have the time and
  the key is absent or falsy; the value is the day of the time's ISO rendering, \<open>YYYY-MM-DD\<close> for
  a year from 0 to 9999. (The statement is for stats whose dates are valid: \<open>toISOString\<close> throws
  for an invalid one.)
\<close>

theorem addMissingProperties_by_truthiness:
  fixes H :: "'n host"
  assumes "distinct (map fst fm)"
    and "b = (case stats of None \<Rightarrow> None | Some s \<Rightarrow> birthtime s)"
    and "m = (case stats of None \<Rightarrow> None | Some s \<Rightarrow> mtime s)"
    and "b \<noteq> Some InvalidDate" and "m \<noteq> Some InvalidDate"
  shows "\<exists>updated additions.
      addMissingProperties H fm filePath stats = Inr (updated, additions)
      \<and> (propTruthy H fm (js ''tags'')
           \<longrightarrow> getProp updated (js ''tags'') = getProp fm (js ''tags'')
               \<and> js ''tags'' \<notin> fst ` set additions)
      \<and> (\<not> propTruthy H fm (js ''tags'')
           \<longrightarrow> getProp updated (js ''tags'') = Some (JArr [])
               \<and> (js ''tags'', JArr []) \<in> set additions)
      \<and> (propTruthy H fm (js ''created'') \<or> b = None
           \<longrightarrow> getProp updated (js ''created'') = getProp fm (js ''created'')
               \<and> js ''created'' \<notin> fst ` set additions)
      \<and> (\<not> propTruthy H fm (js ''created'')
           \<longrightarrow> (\<forall>d. b = Some d
                  \<longrightarrow> (\<exists>day. isoDay d = Inr day
                             \<and> getProp updated (js ''created'') = Some (JStr day)
                             \<and> (js ''created'', JStr day) \<in> set additions)))
      \<and> (propTruthy H fm (js ''modified'') \<or> m = None
           \<longrightarrow> getProp updated (js ''modified'') = getProp fm (js ''modified'')
               \<and> js ''modified'' \<notin> fst ` set additions)
      \<and> (\<not> propTruthy H fm (js ''modified'')
           \<longrightarrow> (\<forall>d. m = Some d
                  \<longrightarrow> (\<exists>day. isoDay d = Inr day
                             \<and> getProp updated (js ''modified'') = Some (JStr day)
                             \<and> (js ''modified'', JStr day) \<in> set additions)))
      \<and> (\<forall>u. 0 \<le> utcYear u \<and> utcYear u \<le> 9999
           \<longrightarrow> isoDay (ValidDate u)
                 = Inr (pad 4 (nat (utcYear u)) @ js ''-'' @ pad 2 (utcMonth u) @ js ''-''
                        @ pad 2 (utcDay u)))"
proof -
  let ?c = "js ''created''" and ?m = "js ''modified''" and ?t = "js ''tags''"
  let ?u0 = "spread fm []" and ?a0 = "[] :: (jsstring \<times> 'n jsvalue) list"
  have u0: "\<And>k. getProp ?u0 k = getProp fm k" using assms(1) by (rule getProp_copy)
  from addDate_step[OF assms(4), of H ?c ?u0 ?a0]
  obtain u1 a1 where s1: "addDate H ?c b (?u0, ?a0) = Inr (u1, a1)"
    and f1: "\<forall>k. k \<noteq> ?c \<longrightarrow> getProp u1 k = getProp ?u0 k"
    and g1: "\<forall>k. k \<noteq> ?c \<longrightarrow> (k \<in> fst ` set a1 \<longleftrightarrow> k \<in> fst ` set ?a0)"
    and k1: "propTruthy H ?u0 ?c \<or> b = None
             \<longrightarrow> getProp u1 ?c = getProp ?u0 ?c \<and> (?c \<in> fst ` set a1 \<longleftrightarrow> ?c \<in> fst ` set ?a0)"
    and n1: "\<not> propTruthy H ?u0 ?c
             \<longrightarrow> (\<forall>d. b = Some d \<longrightarrow> (\<exists>day. isoDay d = Inr day \<and> getProp u1 ?c = Some (JStr day)
                                        \<and> (?c, JStr day) \<in> set a1))"
    apply (elim exE conjE)
    apply (rule that)
    apply assumption+
    done
  from addDate_step[OF assms(5), of H ?m u1 a1]
  obtain u2 a2 where s2: "addDate H ?m m (u1, a1) = Inr (u2, a2)"
    and f2: "\<forall>k. k \<noteq> ?m \<longrightarrow> getProp u2 k = getProp u1 k"
    and g2: "\<forall>k. k \<noteq> ?m \<longrightarrow> (k \<in> fst ` set a2 \<longleftrightarrow> k \<in> fst ` set a1)"
    and sub2: "set a1 \<subseteq> set a2"
    and k2: "propTruthy H u1 ?m \<or> m = None
             \<longrightarrow> getProp u2 ?m = getProp u1 ?m \<and> (?m \<in> fst ` set a2 \<longleftrightarrow> ?m \<in> fst ` set a1)"
    and n2: "\<not> propTruthy H u1 ?m
             \<longrightarrow> (\<forall>d. m = Some d \<longrightarrow> (\<exists>day. isoDay d = Inr day \<and> getProp u2 ?m = Some (JStr day)
                                        \<and> (?m, JStr day) \<in> set a2))"
    apply (elim exE conjE)
    apply (rule that)
    apply assumption+
    done
  from addTags_step[of H u2 a2]
  obtain u3 a3 where s3: "addTags H (u2, a2) = (u3, a3)"
    and f3: "\<forall>k. k \<noteq> ?t \<longrightarrow> getProp u3 k = getProp u2 k"
    and g3: "\<forall>k. k \<noteq> ?t \<longrightarrow> (k \<in> fst ` set a3 \<longleftrightarrow> k \<in> fst ` set a2)"
    and sub3: "set a2 \<subseteq> set a3"
    and k3: "propTruthy H u2 ?t
             \<longrightarrow> getProp u3 ?t = getProp u2 ?t \<and> (?t \<in> fst ` set a3 \<longleftrightarrow> ?t \<in> fst ` set a2)"
    and n3: "\<not> propTruthy H u2 ?t
             \<longrightarrow> getProp u3 ?t = Some (JArr []) \<and> (?t, JArr []) \<in> set a3"
    apply (elim exE conjE)
    apply (rule that)
    apply assumption+
    done
  have run: "addMissingProperties H fm filePath stats = Inr (u3, a3)"
    using s1 s2 s3 assms(2,3) by (simp add: addMissingProperties_def)
  note nd = property_names_differ
  have t2: "getProp u2 ?t = getProp fm ?t" using f1 f2 u0 nd by simp
  have c0: "propTruthy H ?u0 ?c = propTruthy H fm ?c" by (rule propTruthy_cong) (rule u0)
  have m1: "getProp u1 ?m = getProp fm ?m" using f1 u0 nd by simp
  have pt: "propTruthy H u2 ?t = propTruthy H fm ?t" by (rule propTruthy_cong) (rule t2)
  have pm: "propTruthy H u1 ?m = propTruthy H fm ?m" by (rule propTruthy_cong) (rule m1)
  have tags1: "propTruthy H fm ?t
           \<longrightarrow> getProp u3 ?t = getProp fm ?t \<and> ?t \<notin> fst ` set a3"
    using k3 pt t2 g1 g2 nd by simp
  have tags2: "\<not> propTruthy H fm ?t
           \<longrightarrow> getProp u3 ?t = Some (JArr []) \<and> (?t, JArr []) \<in> set a3"
    using n3 pt by simp
  have c3: "getProp u3 ?c = getProp u1 ?c" using f2 f3 nd by simp
  have ca: "?c \<in> fst ` set a3 \<longleftrightarrow> ?c \<in> fst ` set a1" using g2 g3 nd by simp
  have cr1: "propTruthy H fm ?c \<or> b = None
           \<longrightarrow> getProp u3 ?c = getProp fm ?c \<and> ?c \<notin> fst ` set a3"
    using k1 c0 c3 ca u0 by simp
  have cr2: "\<not> propTruthy H fm ?c
           \<longrightarrow> (\<forall>d. b = Some d
                  \<longrightarrow> (\<exists>day. isoDay d = Inr day \<and> getProp u3 ?c = Some (JStr day)
                             \<and> (?c, JStr day) \<in> set a3))"
    using n1 c0 c3 sub2 sub3 by fastforce
  have m3: "getProp u3 ?m = getProp u2 ?m" using f3 nd by simp
  have ma: "?m \<in> fst ` set a3 \<longleftrightarrow> ?m \<in> fst ` set a2" using g3 nd by simp
  have ma1: "?m \<notin> fst ` set a1" using g1 nd by simp
  have md1: "propTruthy H fm ?m \<or> m = None
           \<longrightarrow> getProp u3 ?m = getProp fm ?m \<and> ?m \<notin> fst ` set a3"
    using k2 pm m3 ma ma1 m1 by simp
  have md2: "\<not> propTruthy H fm ?m
           \<longrightarrow> (\<forall>d. m = Some d
                  \<longrightarrow> (\<exists>day. isoDay d = Inr day \<and> getProp u3 ?m = Some (JStr day)
                             \<and> (?m, JStr day) \<in> set a3))"
    using n2 pm m3 sub3 by fastforce
  have fmt: "\<forall>u. 0 \<le> utcYear u \<and> utcYear u \<le> 9999
           \<longrightarrow> isoDay (ValidDate u)
                 = Inr (pad 4 (nat (utcYear u)) @ js ''-'' @ pad 2 (utcMonth u) @ js ''-''
                        @ pad 2 (utcDay u))"
    using isoDay_format by blast
  show ?thesis
    using run tags1 tags2 cr1 cr2 md1 md2 fmt by blast
qed

theorem addMissingProperties_by_truthiness_witness:
  "distinct (map fst [(js ''tags'', JArr [] :: nat option jsvalue)])
   \<and> birthtime exampleStats \<noteq> Some InvalidDate \<and> mtime exampleStats \<noteq> Some InvalidDate
   \<and> propTruthy exampleHost [(js ''tags'', JArr [])] (js ''tags'')
   \<and> \<not> propTruthy exampleHost [(js ''tags'', JArr [])] (js ''created'')
   \<and> addMissingProperties exampleHost [(js ''tags'', JArr [])] (js ''note.md'') (Some exampleStats)
       = Inr ([(js ''tags'', JArr []), (js ''created'', JStr (js ''2024-03-01''))],
              [(js ''created'', JStr (js ''2024-03-01''))])
   \<and> js ''tags'' \<notin> fst ` set (snd (projr (addMissingProperties exampleHost
          [(js ''tags'', JArr [])] (js ''note.md'') (Some exampleStats))))"
proof -
  let ?fm = "[(js ''tags'', JArr [] :: nat option jsvalue)]"
  have d: "distinct (map fst ?fm)" by simp
  have b: "birthtime exampleStats = (case Some exampleStats of None \<Rightarrow> None | Some s \<Rightarrow> birthtime s)"
    and m: "mtime exampleStats = (case Some exampleStats of None \<Rightarrow> None | Some s \<Rightarrow> mtime s)"
    by simp_all
  have vb: "birthtime exampleStats \<noteq> Some InvalidDate" and vm: "mtime exampleStats \<noteq> Some InvalidDate"
    by (simp_all add: exampleStats_def)
  have pt: "propTruthy exampleHost ?fm (js ''tags'')"
    by (simp add: propTruthy_def getProp_def)
  have pc: "\<not> propTruthy exampleHost ?fm (js ''created'')"
    by (simp add: propTruthy_def getProp_def js_simps)
  have day: "isoDay (ValidDate \<lparr>utcYear = 2024, utcMonth = 3, utcDay = 1, utcHours = 9,
                                     utcMinutes = 30, utcSeconds = 0, utcMillis = 0\<rparr>)
               = Inr (js ''2024-03-01'')"
    by (simp add: isoDay_def toISOString_def js_simps pad_numerals)
  have run: "addMissingProperties exampleHost ?fm (js ''note.md'') (Some exampleStats)
       = Inr ([(js ''tags'', JArr []), (js ''created'', JStr (js ''2024-03-01''))],
              [(js ''created'', JStr (js ''2024-03-01''))])"
    using day
    by (simp add: addMissingProperties_def addDate_def addTags_def propTruthy_def getProp_def
        spread_def exampleStats_def js_simps)
  from addMissingProperties_by_truthiness[of ?fm "birthtime exampleStats" "Some exampleStats"
      "mtime exampleStats" exampleHost "js ''note.md''", OF d b m vb vm]
  obtain updated additions where
    r: "addMissingProperties exampleHost ?fm (js ''note.md'') (Some exampleStats)
          = Inr (updated, additions)"
    and t: "propTruthy exampleHost ?fm (js ''tags'')
           \<longrightarrow> getProp updated (js ''tags'') = getProp ?fm (js ''tags'')
               \<and> js ''tags'' \<notin> fst ` set additions"
    apply (elim exE conjE)
    apply (rule that)
    apply assumption+
    done
  have "js ''tags'' \<notin> fst ` set (snd (projr (addMissingProperties exampleHost ?fm
          (js ''note.md'') (Some exampleStats))))"
    using t pt unfolding r by simp
  then show ?thesis using d vb vm pt pc run by simp
qed

section \<open>Tags\<close>

lemma set_foldl_pushNew: "set (foldl pushNew acc xs) = set acc \<union> set xs"
  by (induction xs arbitrary: acc) (auto simp: pushNew_def)

lemma distinct_foldl_pushNew: "distinct acc \<Longrightarrow> distinct (foldl pushNew acc xs)"
  by (induction xs arbitrary: acc) (auto simp: pushNew_def)

lemma hashtagMatches_shape:
  "t \<in> set (hashtagMatches s) \<Longrightarrow> t \<noteq> [] \<and> list_all isTagChar t"
proof (induction s rule: hashtagMatches.induct)
  case 1
  then show ?case by simp
next
  case (2 c cs)
  show ?case
  proof (cases "c = hash \<and> takeWhile isTagChar cs \<noteq> []")
    case True
    then have "t = takeWhile isTagChar cs \<or> t \<in> set (hashtagMatches (dropWhile isTagChar cs))"
      using 2(3) by auto
    then show ?thesis
    proof
      assume t: "t = takeWhile isTagChar cs"
      have "list_all isTagChar (takeWhile isTagChar cs)"
        unfolding list_all_iff using set_takeWhileD by fastforce
      then show ?thesis using t True by simp
    next
      assume "t \<in> set (hashtagMatches (dropWhile isTagChar cs))"
      then show ?thesis using 2(1) True by simp
    qed
  next
    case False
    then have "t \<in> set (hashtagMatches cs)" using 2(3) by auto
    then show ?thesis using 2(2) False by simp
  qed
qed

lemma analysis_tags_unfold:
  "tags (analyzeMarkdownFile H txt)
     = foldl pushNew
         (foldl pushNew [] (map JStr (hashtagMatches (contentWithoutFrontmatter txt))))
         (frontmatterTags H (analysisFrontmatter (analyzeMarkdownFile H txt)))"
  by (simp add: analyzeMarkdownFile_def Let_def)

lemmas match_eval =
  matchFrontmatter_def wsNewlineEnds_def matchClose_def contentWithoutFrontmatter_def

lemma taggedNote_match:
  "matchFrontmatter taggedNote = Some (js ''tags: [tag2, tag3]'', js ''content with #tag1 and #tag2'')"
  by (simp add: taggedNote_def match_eval string_eval)

lemma commaTagsNote_match:
  "matchFrontmatter commaTagsNote = Some (js ''tags: a, b'', js ''plain body'')"
  by (simp add: commaTagsNote_def match_eval string_eval)

lemma taggedNote_hashtags:
  "hashtagMatches (js ''content with #tag1 and #tag2'') = [js ''tag1'', js ''tag2'']"
  by (simp add: js_simps isTagChar_def)

lemma commaTagsNote_hashtags: "hashtagMatches (js ''plain body'') = []"
  by (simp add: js_simps isTagChar_def)

lemma numberTagNote_match:
  "matchFrontmatter numberTagNote = Some (js ''tags: 2024'', js ''plain body'')"
  by (simp add: numberTagNote_def match_eval string_eval)

lemma numberTagNote_frontmatter:
  "foldl (analyzeLine exampleHost) [] (splitOn LF (js ''tags: 2024''))
     = [(js ''tags'', JNum (Some 2024))]"
proof -
  have num: "Number exampleHost (js ''2024'') = Some 2024"
    by (simp add: exampleHost_def isDigit_def js_simps)
  have nan: "\<not> isNaN exampleHost (Number exampleHost (js ''2024''))"
    unfolding num by (simp add: exampleHost_def)
  show ?thesis
    using num nan
    by (simp add: analyzeLine_def matchKeyValue_def analyzeValue_def stripEdges_def isQuote_def
        isLineTerminator_def string_eval)
qed

lemma taggedNote_frontmatter:
  "foldl (analyzeLine exampleHost) [] (splitOn LF (js ''tags: [tag2, tag3]''))
     = [(js ''tags'', JArr [JStr (js ''tag2''), JStr (js ''tag3'')])]"
  by (simp add: analyzeLine_def matchKeyValue_def analyzeValue_def stripEdges_def isQuote_def
      isLineTerminator_def string_eval)

lemma commaTagsNote_frontmatter:
  "foldl (analyzeLine exampleHost) [] (splitOn LF (js ''tags: a, b''))
     = [(js ''tags'', JStr (js ''a, b''))]"
proof -
  have nan: "isNaN exampleHost (Number exampleHost (js ''a, b''))"
    by (simp add: exampleHost_def isDigit_def js_simps)
  show ?thesis
    using nan
    by (simp add: analyzeLine_def matchKeyValue_def analyzeValue_def stripEdges_def isQuote_def
        isLineTerminator_def string_eval)
qed

text \<open>
  Claim C6, as the specification states it, fails: a string-valued \<open>tags\<close> entry is not split on
  commas. For the frontmatter line \<open>tags: a, b\<close> the only tag is the whole string \<open>a, b\<close>.
\<close>

theorem analyzeMarkdownFile_comma_tags_counterexample:
  "getProp (analysisFrontmatter (analyzeMarkdownFile exampleHost commaTagsNote)) (js ''tags'')
     = Some (JStr (js ''a, b''))
   \<and> tags (analyzeMarkdownFile exampleHost commaTagsNote) = [JStr (js ''a, b'')]
   \<and> set (tags (analyzeMarkdownFile exampleHost commaTagsNote))
       \<noteq> {JStr (js ''a''), JStr (js ''b'')}"
proof -
  have fm: "analysisFrontmatter (analyzeMarkdownFile exampleHost commaTagsNote)
              = [(js ''tags'', JStr (js ''a, b''))]"
    by (simp add: analyzeMarkdownFile_def commaTagsNote_match commaTagsNote_frontmatter Let_def)
  have body: "contentWithoutFrontmatter commaTagsNote = js ''plain body''"
    by (simp add: contentWithoutFrontmatter_def commaTagsNote_match)
  have t: "tags (analyzeMarkdownFile exampleHost commaTagsNote) = [JStr (js ''a, b'')]"
    unfolding analysis_tags_unfold fm body commaTagsNote_hashtags
    by (simp add: frontmatterTags_def getProp_def pushNew_def js_simps)
  show ?thesis unfolding fm t by (simp add: getProp_def js_simps)
qed

text \<open>
  Claim C6, amended. The extracted tags are, without duplicates, the inline hashtag matches of
  the body (each a \<open>#\<close> followed by one or more word or hyphen characters) together with the
  \<open>tags\<close> frontmatter entry when that entry is truthy: an array-valued entry contributes its
  elements, and any other truthy value (a string, with commas or not, a number, \<open>true\<close>)
  contributes itself as one tag. An absent or falsy entry contributes nothing.
\<close>

theorem analyzeMarkdownFile_tags:
  "distinct (tags (analyzeMarkdownFile H txt))
   \<and> (\<forall>t \<in> set (hashtagMatches (contentWithoutFrontmatter txt)). t \<noteq> [] \<and> list_all isTagChar t)
   \<and> (\<forall>xs. getProp (analysisFrontmatter (analyzeMarkdownFile H txt)) (js ''tags'') = Some (JArr xs)
          \<longrightarrow> set (tags (analyzeMarkdownFile H txt))
                = JStr ` set (hashtagMatches (contentWithoutFrontmatter txt)) \<union> set xs)
   \<and> (\<forall>v. getProp (analysisFrontmatter (analyzeMarkdownFile H txt)) (js ''tags'') = Some v
            \<and> truthy H v \<and> (\<forall>xs. v \<noteq> JArr xs)
          \<longrightarrow> set (tags (analyzeMarkdownFile H txt))
                = JStr ` set (hashtagMatches (contentWithoutFrontmatter txt)) \<union> {v})
   \<and> (getProp (analysisFrontmatter (analyzeMarkdownFile H txt)) (js ''tags'') = None
        \<or> (\<exists>v. getProp (analysisFrontmatter (analyzeMarkdownFile H txt)) (js ''tags'') = Some v
                 \<and> \<not> truthy H v)
          \<longrightarrow> set (tags (analyzeMarkdownFile H txt))
                = JStr ` set (hashtagMatches (contentWithoutFrontmatter txt)))"
proof -
  let ?fm = "analysisFrontmatter (analyzeMarkdownFile H txt)"
  let ?inline = "JStr ` set (hashtagMatches (contentWithoutFrontmatter txt))"
  have t: "tags (analyzeMarkdownFile H txt)
             = foldl pushNew
                 (foldl pushNew [] (map JStr (hashtagMatches (contentWithoutFrontmatter txt))))
                 (frontmatterTags H ?fm)"
    by (rule analysis_tags_unfold)
  have u: "set (tags (analyzeMarkdownFile H txt)) = ?inline \<union> set (frontmatterTags H ?fm)"
    unfolding t by (simp add: set_foldl_pushNew)
  have 1: "distinct (tags (analyzeMarkdownFile H txt))"
    unfolding t by (intro distinct_foldl_pushNew) simp
  have 2: "\<forall>t \<in> set (hashtagMatches (contentWithoutFrontmatter txt)). t \<noteq> [] \<and> list_all isTagChar t"
    using hashtagMatches_shape by blast
  have 3: "\<forall>xs. getProp ?fm (js ''tags'') = Some (JArr xs)
             \<longrightarrow> set (tags (analyzeMarkdownFile H txt)) = ?inline \<union> set xs"
    unfolding u by (simp add: frontmatterTags_def)
  have 4: "\<forall>v. getProp ?fm (js ''tags'') = Some v \<and> truthy H v \<and> (\<forall>xs. v \<noteq> JArr xs)
             \<longrightarrow> set (tags (analyzeMarkdownFile H txt)) = ?inline \<union> {v}"
    unfolding u by (auto simp: frontmatterTags_def split: jsvalue.splits)
  have 5: "getProp ?fm (js ''tags'') = None
           \<or> (\<exists>v. getProp ?fm (js ''tags'') = Some v \<and> \<not> truthy H v)
             \<longrightarrow> set (tags (analyzeMarkdownFile H txt)) = ?inline"
    unfolding u by (auto simp: frontmatterTags_def)
  show ?thesis using 1 2 3 4 5 by (intro conjI)
qed

theorem analyzeMarkdownFile_tags_witness:
  "contentWithoutFrontmatter taggedNote = js ''content with #tag1 and #tag2''
   \<and> getProp (analysisFrontmatter (analyzeMarkdownFile exampleHost taggedNote)) (js ''tags'')
       = Some (JArr [JStr (js ''tag2''), JStr (js ''tag3'')])
   \<and> set (tags (analyzeMarkdownFile exampleHost taggedNote))
       = {JStr (js ''tag1''), JStr (js ''tag2''), JStr (js ''tag3'')}
   \<and> tags (analyzeMarkdownFile exampleHost taggedNote)
       = [JStr (js ''tag1''), JStr (js ''tag2''), JStr (js ''tag3'')]
   \<and> getProp (analysisFrontmatter (analyzeMarkdownFile exampleHost numberTagNote)) (js ''tags'')
       = Some (JNum (Some 2024))
   \<and> truthy exampleHost (JNum (Some 2024))
   \<and> set (tags (analyzeMarkdownFile exampleHost numberTagNote)) = {JNum (Some 2024)}"
proof -
  let ?fm = "analysisFrontmatter (analyzeMarkdownFile exampleHost taggedNote)"
  let ?fn = "analysisFrontmatter (analyzeMarkdownFile exampleHost numberTagNote)"
  have body: "contentWithoutFrontmatter taggedNote = js ''content with #tag1 and #tag2''"
    by (simp add: contentWithoutFrontmatter_def taggedNote_match)
  have fm: "?fm = [(js ''tags'', JArr [JStr (js ''tag2''), JStr (js ''tag3'')])]"
    by (simp add: analyzeMarkdownFile_def taggedNote_match taggedNote_frontmatter Let_def)
  have g: "getProp ?fm (js ''tags'') = Some (JArr [JStr (js ''tag2''), JStr (js ''tag3'')])"
    unfolding fm by (simp add: getProp_def)
  from analyzeMarkdownFile_tags[of exampleHost taggedNote]
  have a: "\<forall>xs. getProp ?fm (js ''tags'') = Some (JArr xs)
             \<longrightarrow> set (tags (analyzeMarkdownFile exampleHost taggedNote))
                   = JStr ` set (hashtagMatches (contentWithoutFrontmatter taggedNote)) \<union> set xs"
    by (elim conjE)
  have sv: "set (tags (analyzeMarkdownFile exampleHost taggedNote))
       = {JStr (js ''tag1''), JStr (js ''tag2''), JStr (js ''tag3'')}"
    using a g unfolding body taggedNote_hashtags by auto
  have tv: "tags (analyzeMarkdownFile exampleHost taggedNote)
       = [JStr (js ''tag1''), JStr (js ''tag2''), JStr (js ''tag3'')]"
    unfolding analysis_tags_unfold fm body taggedNote_hashtags
    by (simp add: frontmatterTags_def getProp_def pushNew_def js_simps)
  have nbody: "contentWithoutFrontmatter numberTagNote = js ''plain body''"
    by (simp add: contentWithoutFrontmatter_def numberTagNote_match)
  have fn: "?fn = [(js ''tags'', JNum (Some 2024))]"
    by (simp add: analyzeMarkdownFile_def numberTagNote_match numberTagNote_frontmatter Let_def)
  have gn: "getProp ?fn (js ''tags'') = Some (JNum (Some 2024))"
    unfolding fn by (simp add: getProp_def)
  have tr: "truthy exampleHost (JNum (Some 2024))"
    by (simp add: exampleHost_def)
  from analyzeMarkdownFile_tags[of exampleHost numberTagNote]
  have b: "\<forall>v. getProp ?fn (js ''tags'') = Some v \<and> truthy exampleHost v \<and> (\<forall>xs. v \<noteq> JArr xs)
             \<longrightarrow> set (tags (analyzeMarkdownFile exampleHost numberTagNote))
                   = JStr ` set (hashtagMatches (contentWithoutFrontmatter numberTagNote)) \<union> {v}"
    by (elim conjE)
  have nv: "set (tags (analyzeMarkdownFile exampleHost numberTagNote)) = {JNum (Some 2024)}"
    using b gn tr unfolding nbody commaTagsNote_hashtags by simp
  show ?thesis using body g sv tv gn tr nv by simp
qed

section \<open>The YAML round trip\<close>

text \<open>
  Claim C1 fails on the code. The line \<open>flag: "true"\<close> parses to the string \<open>true\<close>; the
  serializer quotes a string only when it contains \<open>:\<close>, \<open>#\<close> or a line feed, so it writes
  \<open>flag: true\<close>, which parses to the boolean. In the same way the string \<open>12\<close> comes back as
  the number 12.
\<close>

theorem parseYamlLike_roundtrip_changes_type:
  "parseYamlLike exampleHost (js ''flag: \"true\"'') = [(js ''flag'', JStr (js ''true''))]
   \<and> stringifyYaml exampleHost [(js ''flag'', JStr (js ''true''))] 0 = js ''flag: true'' @ [LF]
   \<and> parseYamlLike exampleHost (js ''flag: true'' @ [LF]) = [(js ''flag'', JBool True)]
   \<and> parseYamlLike exampleHost (js ''n: \"12\"'') = [(js ''n'', JStr (js ''12''))]
   \<and> stringifyYaml exampleHost [(js ''n'', JStr (js ''12''))] 0 = js ''n: 12'' @ [LF]
   \<and> parseYamlLike exampleHost (js ''n: 12'' @ [LF]) = [(js ''n'', JNum (Some 12))]"
proof -
  have num: "Number exampleHost (js ''12'') = Some 12"
    "\<not> isNaN exampleHost (Number exampleHost (js ''12''))"
    by (simp_all add: exampleHost_def isDigit_def js_simps)
  have 1: "parseYamlLike exampleHost (js ''flag: \"true\"'') = [(js ''flag'', JStr (js ''true''))]"
    by (simp add: parseYamlLike_def parseYamlLine_def string_eval)
  have 2: "stringifyYaml exampleHost [(js ''flag'', JStr (js ''true''))] 0 = js ''flag: true'' @ [LF]"
    by (simp add: stringifyYaml_def js_simps)
  have 3: "parseYamlLike exampleHost (js ''flag: true'' @ [LF]) = [(js ''flag'', JBool True)]"
    by (simp add: parseYamlLike_def parseYamlLine_def string_eval)
  have 4: "parseYamlLike exampleHost (js ''n: \"12\"'') = [(js ''n'', JStr (js ''12''))]"
    by (simp add: parseYamlLike_def parseYamlLine_def string_eval)
  have 5: "stringifyYaml exampleHost [(js ''n'', JStr (js ''12''))] 0 = js ''n: 12'' @ [LF]"
    by (simp add: stringifyYaml_def js_simps)
  have 6: "parseYamlLike exampleHost (js ''n: 12'' @ [LF]) = [(js ''n'', JNum (Some 12))]"
    using num by (simp add: parseYamlLike_def parseYamlLine_def string_eval)
  show ?thesis using 1 2 3 4 5 6 by (intro conjI)
qed

end
